theory Spec2Isabelle
  imports Complex_Main
begin

section \<open>Values, sprites and particle objects\<close>

text \<open>
  JavaScript numbers are binary64 floating-point numbers. They are modelled as real
  numbers. Where the source compares numbers, or stores the value of an expression in a
  field and the property is that the field holds the value of that expression, the
  arithmetic is written over the reals. Where a property relates the result of one
  computation to a bound computed another way (\<open>randomPoint\<close>, and \<open>max_x\<close> and \<open>max_y\<close>
  of the constructor \<open>Beaker\<close>), every operation is followed by the rounding
  \<open>round_double\<close> to the nearest binary64 number. NaN and the infinities are outside the
  model. An object reference is an address into an explicit heap; \<open>null\<close> is \<open>None\<close>.
  An exception is a value: every function that can throw returns \<open>error + 'a\<close>.
  A thrown exception carries no state: what the source had already mutated when it
  threw is not observed by any property below.

  The particle classes are in \<open>src/unnamed/part_000\<close> (cited as part_000), the Weak and
  Strong variants in \<open>weak.js\<close>, and the beaker in the listing of \<open>beaker/beaker.js\<close>
  (cited as beaker.js, with the line numbers of the listing). Images and drawing are not
  modelled.
\<close>

type_synonym ref = nat

datatype error = TypeError

text \<open>
  The sprite the engine creates in \<open>Particle.prototype.createSprite\<close>: position,
  velocity, draw depth, and the circular collider \<open>(offset_x, offset_y, radius)\<close> given to
  \<open>setCollider\<close>. The depth is a number or \<open>null\<close>, because
  \<open>ConjugateBase.prototype.update\<close> assigns \<open>restore_depth\<close> (initially \<open>null\<close>) to it.
\<close>

record sprite =
  position_x :: real
  position_y :: real
  velocity_x :: real
  velocity_y :: real
  depth :: "real option"
  collider :: "real \<times> real \<times> real"

text \<open>The hash \<open>this.proton\<close> of a \<open>ConjugateBase\<close> (constructor, part_000 lines 173-180).\<close>

record proton_hash =
  particle :: "ref option"
  offset_x :: real
  offset_y :: real
  restore_depth :: "real option"
  release_after_range :: "real \<times> real"
  post_release_duration :: real
  release_after :: "real option"

text \<open>
  The own fields of an instance, by constructor: a plain \<open>Particle\<close> has none, a
  \<open>Proton\<close> has \<open>this.base\<close> whose only field is \<open>base.particle\<close>, a \<open>ConjugateBase\<close>
  (and its Strong and Weak variants) has \<open>this.proton\<close>.
\<close>

datatype instance_fields =
    Particle_fields
  | Proton_fields "ref option"
  | ConjugateBase_fields proton_hash

text \<open>
  A particle and its sprite reference each other (\<open>this.sprite\<close>,
  \<open>sprite.particle = this\<close>) and are created together, so one heap cell holds both: the
  address of the cell stands for the particle and for its sprite.
\<close>

record particle_obj =
  sprite :: sprite
  own_fields :: instance_fields

text \<open>
  The mutable world: the heap, the allocation counter, and how many times the clock
  (\<open>Date.now()\<close>), the random source (\<open>Math.random()\<close>) and the engine's sprite factory
  have been called so far.
\<close>

record world =
  heap :: "ref \<rightharpoonup> particle_obj"
  next_ref :: ref
  clock_reads :: nat
  random_draws :: nat
  sprites_created :: nat

text \<open>
  What the host supplies and the repository does not define: the successive readings of
  the clock, the successive draws of the random source, and the sprite engine's
  point-overlap test (a function of a sprite's position and collider), sprite-overlap
  test and initial depth of the \<open>n\<close>-th sprite it creates. All are parameters.
\<close>

record host =
  clock :: "nat \<Rightarrow> real"
  random_source :: "nat \<Rightarrow> real"
  overlapPoint :: "real \<times> real \<Rightarrow> real \<times> real \<times> real \<Rightarrow> real \<Rightarrow> real \<Rightarrow> bool"
  overlap_test :: "sprite \<Rightarrow> sprite \<Rightarrow> bool"
  initial_depth :: "nat \<Rightarrow> real"

definition Date_now :: "host \<Rightarrow> world \<Rightarrow> real \<times> world" where
  "Date_now H w = (clock H (clock_reads w), w\<lparr>clock_reads := Suc (clock_reads w)\<rparr>)"

definition Math_random :: "host \<Rightarrow> world \<Rightarrow> real \<times> world" where
  "Math_random H w = (random_source H (random_draws w), w\<lparr>random_draws := Suc (random_draws w)\<rparr>)"

text \<open>JavaScript \<open>ToNumber\<close> on a number-or-null: \<open>null + .5\<close> is \<open>0.5\<close>.\<close>

definition to_number :: "real option \<Rightarrow> real" where
  "to_number v = (case v of None \<Rightarrow> 0 | Some d \<Rightarrow> d)"

section \<open>ConjugateBase: the reaction handler and update\<close>

text \<open>
  \<open>ConjugateBase.prototype.reacts_with["Proton"]\<close> (part_000 lines 210-226). The condition
  is evaluated left to right with short-circuit: \<open>protonParticle.base.particle\<close> throws
  when the target is not a Proton; \<open>baseParticle.proton.particle\<close> is only read when the
  proton is free. \<open>Date.now()\<close> and \<open>Math.random()\<close> are called only when a bond forms.
\<close>

definition reacts_with_Proton :: "host \<Rightarrow> ref \<Rightarrow> ref \<Rightarrow> world \<Rightarrow> error + world" where
  "reacts_with_Proton H baseSprite protonSprite w =
    (case heap w protonSprite of
       None \<Rightarrow> Inl TypeError
     | Some protonParticle \<Rightarrow>
        (case own_fields protonParticle of
           Proton_fields base_particle \<Rightarrow>
             if base_particle \<noteq> None then Inr w
             else
              (case heap w baseSprite of
                 None \<Rightarrow> Inl TypeError
               | Some baseParticle \<Rightarrow>
                  (case own_fields baseParticle of
                     ConjugateBase_fields proton \<Rightarrow>
                       if particle proton \<noteq> None then Inr w
                       else
                         let (now, w1) = Date_now H w;
                             (r, w2) = Math_random H w1;
                             proton' = proton
                               \<lparr>release_after :=
                                  Some (now + fst (release_after_range proton)
                                            + snd (release_after_range proton) * r),
                                particle := Some protonSprite,
                                restore_depth := depth (sprite protonParticle)\<rparr>;
                             baseParticle' = baseParticle\<lparr>own_fields := ConjugateBase_fields proton'\<rparr>;
                             protonParticle' = protonParticle
                               \<lparr>own_fields := Proton_fields (Some baseSprite),
                                sprite := (sprite protonParticle)
                                  \<lparr>depth := Some (to_number (depth (sprite baseParticle)) + 1/2)\<rparr>\<rparr>
                         in Inr (w2\<lparr>heap := (heap w2)(baseSprite \<mapsto> baseParticle',
                                                       protonSprite \<mapsto> protonParticle')\<rparr>)
                   | _ \<Rightarrow> Inl TypeError))
         | _ \<Rightarrow> Inl TypeError))"

text \<open>
  \<open>ConjugateBase.prototype.update\<close> (part_000 lines 230-254). The guard
  \<open>if( proton.release_after )\<close> is a truthiness test: \<open>null\<close> and the number \<open>0\<close> are
  both falsy. \<open>proton.particle.sprite\<close> throws
  when no proton is referenced, \<open>proton.particle.base.particle = null\<close> throws when the
  referenced particle has no \<open>base\<close> hash.
\<close>

definition ConjugateBase_update :: "host \<Rightarrow> ref \<Rightarrow> world \<Rightarrow> error + world" where
  "ConjugateBase_update H this w =
    (case heap w this of
       None \<Rightarrow> Inl TypeError
     | Some self \<Rightarrow>
        (case own_fields self of
           ConjugateBase_fields proton \<Rightarrow>
             (case release_after proton of
                None \<Rightarrow> Inr w
              | Some ra \<Rightarrow>
                 if ra = 0 then Inr w
                 else
                   let (now, w1) = Date_now H w in
                   if now < ra then
                     (case particle proton of
                        None \<Rightarrow> Inl TypeError
                      | Some q \<Rightarrow>
                         (case heap w1 q of
                            None \<Rightarrow> Inl TypeError
                          | Some protonParticle \<Rightarrow>
                              Inr (w1\<lparr>heap := (heap w1)(q \<mapsto> protonParticle
                                \<lparr>sprite := (sprite protonParticle)
                                   \<lparr>position_x := position_x (sprite self) + offset_x proton,
                                    position_y := position_y (sprite self) + offset_y proton\<rparr>\<rparr>)\<rparr>)))
                   else if now < ra + post_release_duration proton then Inr w1
                   else
                     (case particle proton of
                        None \<Rightarrow> Inl TypeError
                      | Some q \<Rightarrow>
                         (case heap w1 q of
                            None \<Rightarrow> Inl TypeError
                          | Some protonParticle \<Rightarrow>
                             (case own_fields protonParticle of
                                Proton_fields _ \<Rightarrow>
                                  Inr (w1\<lparr>heap := (heap w1)
                                    (q \<mapsto> protonParticle
                                       \<lparr>sprite := (sprite protonParticle)\<lparr>depth := restore_depth proton\<rparr>,
                                        own_fields := Proton_fields None\<rparr>,
                                     this \<mapsto> self
                                       \<lparr>own_fields := ConjugateBase_fields (proton
                                          \<lparr>restore_depth := None,
                                           release_after := None,
                                           particle := None\<rparr>)\<rparr>)\<rparr>)
                              | _ \<Rightarrow> Inl TypeError))))
         | _ \<Rightarrow> Inl TypeError))"

text \<open>
  \<open>particle.update()\<close> as the prototype chain dispatches it: \<open>ConjugateBase\<close> overrides
  it, \<open>Particle\<close> and \<open>Proton\<close> have the empty \<open>Particle.prototype.update\<close>.
\<close>

definition update :: "host \<Rightarrow> ref \<Rightarrow> world \<Rightarrow> error + world" where
  "update H this w =
    (case heap w this of
       None \<Rightarrow> Inl TypeError
     | Some self \<Rightarrow>
        (case own_fields self of
           ConjugateBase_fields _ \<Rightarrow> ConjugateBase_update H this w
         | _ \<Rightarrow> Inr w))"

text \<open>The two reference fields of a bond, read through the heap.\<close>

definition proton_of :: "world \<Rightarrow> ref \<Rightarrow> ref option" where
  "proton_of w b =
    (case heap w b of
       Some obj \<Rightarrow> (case own_fields obj of ConjugateBase_fields proton \<Rightarrow> particle proton | _ \<Rightarrow> None)
     | None \<Rightarrow> None)"

definition base_of :: "world \<Rightarrow> ref \<Rightarrow> ref option" where
  "base_of w p =
    (case heap w p of
       Some obj \<Rightarrow> (case own_fields obj of Proton_fields base_particle \<Rightarrow> base_particle | _ \<Rightarrow> None)
     | None \<Rightarrow> None)"

definition is_Proton :: "world \<Rightarrow> ref \<Rightarrow> bool" where
  "is_Proton w p =
    (case heap w p of
       Some obj \<Rightarrow> (case own_fields obj of Proton_fields _ \<Rightarrow> True | _ \<Rightarrow> False)
     | None \<Rightarrow> False)"

definition is_ConjugateBase :: "world \<Rightarrow> ref \<Rightarrow> bool" where
  "is_ConjugateBase w b =
    (case heap w b of
       Some obj \<Rightarrow> (case own_fields obj of ConjugateBase_fields _ \<Rightarrow> True | _ \<Rightarrow> False)
     | None \<Rightarrow> False)"


section \<open>Particle classes and construction\<close>

text \<open>
  A particle class as \<open>Beaker\<close> uses it: the constructor function's own \<open>name\<close>
  (\<open>particle_class.name\<close>, which a bundler may mangle), the \<open>name\<close> property of its
  prototype (\<open>undefined\<close> when the class never sets one), the prototype's collider and
  velocity constants, and which constructor body runs.
\<close>

datatype constructor =
    Particle_constructor
  | Proton_constructor
  | ConjugateBase_constructor
  | WeakConjugateBase_constructor
  | StrongConjugateBase_constructor

record particle_class =
  name :: string
  prototype_name :: "string option"
  collider_offset_x :: real
  collider_offset_y :: real
  collider_radius :: real
  max_velocity :: real
  ctor :: constructor

text \<open>A property key is a string: \<open>obj[undefined]\<close> reads the key \<open>"undefined"\<close>.\<close>

definition property_key :: "string option \<Rightarrow> string" where
  "property_key v = (case v of None \<Rightarrow> ''undefined'' | Some s \<Rightarrow> s)"

text \<open>\<open>Particle.prototype.randomVelocity\<close> (part_000 lines 128-131).\<close>

definition randomVelocity :: "host \<Rightarrow> particle_class \<Rightarrow> world \<Rightarrow> real \<times> world" where
  "randomVelocity H cls w =
    (let (r, w1) = Math_random H w in (max_velocity cls - r * 2 * max_velocity cls, w1))"

text \<open>
  \<open>Particle.prototype.createSprite\<close> (part_000 lines 107-121), for a truthy sketch: the
  engine creates the sprite, the collider is set from the prototype, and the two velocity
  components are drawn in the order x, y.
\<close>

definition createSprite :: "host \<Rightarrow> particle_class \<Rightarrow> real \<Rightarrow> real \<Rightarrow> world \<Rightarrow> sprite \<times> world" where
  "createSprite H cls x y w =
    (let d = initial_depth H (sprites_created w);
         w0 = w\<lparr>sprites_created := Suc (sprites_created w)\<rparr>;
         (vx, w1) = randomVelocity H cls w0;
         (vy, w2) = randomVelocity H cls w1
     in (\<lparr>position_x = x, position_y = y, velocity_x = vx, velocity_y = vy,
          depth = Some d,
          collider = (collider_offset_x cls, collider_offset_y cls, collider_radius cls)\<rparr>, w2))"

text \<open>
  The constructors. \<open>Particle.call(this,sketch)\<close> passes no coordinates, so each level of
  the inheritance chain first creates a sprite at the origin that the next
  \<open>this.createSprite(x,y)\<close> replaces; the replaced sprites belong to no group of the
  beaker and only their random draws and their place in the engine's count remain.
\<close>

definition Particle_new :: "host \<Rightarrow> particle_class \<Rightarrow> real \<Rightarrow> real \<Rightarrow> world \<Rightarrow> sprite \<times> world" where
  "Particle_new H cls x y w = createSprite H cls x y w"

definition ConjugateBase_new ::
  "host \<Rightarrow> particle_class \<Rightarrow> real \<Rightarrow> real \<Rightarrow> world \<Rightarrow> (sprite \<times> proton_hash) \<times> world" where
  "ConjugateBase_new H cls x y w =
    (let (_, w1) = Particle_new H cls 0 0 w;
         (s, w2) = createSprite H cls x y w1
     in ((s, \<lparr>particle = None, offset_x = 10, offset_y = - 10, restore_depth = None,
              release_after_range = (0, 5000), post_release_duration = 750,
              release_after = None\<rparr>), w2))"

definition Proton_new ::
  "host \<Rightarrow> particle_class \<Rightarrow> real \<Rightarrow> real \<Rightarrow> world \<Rightarrow> (sprite \<times> ref option) \<times> world" where
  "Proton_new H cls x y w =
    (let (_, w1) = Particle_new H cls 0 0 w;
         (s, w2) = createSprite H cls x y w1
     in ((s, None), w2))"

definition WeakConjugateBase_new ::
  "host \<Rightarrow> particle_class \<Rightarrow> real \<Rightarrow> real \<Rightarrow> world \<Rightarrow> (sprite \<times> proton_hash) \<times> world" where
  "WeakConjugateBase_new H cls x y w =
    (let ((_, proton), w1) = ConjugateBase_new H cls 0 0 w;
         (s, w2) = createSprite H cls x y w1
     in ((s, proton\<lparr>release_after_range := (0, 2000)\<rparr>), w2))"

definition StrongConjugateBase_new ::
  "host \<Rightarrow> particle_class \<Rightarrow> real \<Rightarrow> real \<Rightarrow> world \<Rightarrow> (sprite \<times> proton_hash) \<times> world" where
  "StrongConjugateBase_new H cls x y w =
    (let ((_, proton), w1) = ConjugateBase_new H cls 0 0 w;
         (s, w2) = createSprite H cls x y w1
     in ((s, proton\<lparr>release_after_range := (5000, 10000)\<rparr>), w2))"

text \<open>\<open>new particle_class(p, x, y)\<close>: run the constructor and allocate the object.\<close>

definition new_particle :: "host \<Rightarrow> particle_class \<Rightarrow> real \<Rightarrow> real \<Rightarrow> world \<Rightarrow> ref \<times> world" where
  "new_particle H cls x y w =
    (let (obj, w1) =
           (case ctor cls of
              Particle_constructor \<Rightarrow>
                (let (s, w1) = Particle_new H cls x y w
                 in (\<lparr>sprite = s, own_fields = Particle_fields\<rparr>, w1))
            | Proton_constructor \<Rightarrow>
                (let ((s, b), w1) = Proton_new H cls x y w
                 in (\<lparr>sprite = s, own_fields = Proton_fields b\<rparr>, w1))
            | ConjugateBase_constructor \<Rightarrow>
                (let ((s, pr), w1) = ConjugateBase_new H cls x y w
                 in (\<lparr>sprite = s, own_fields = ConjugateBase_fields pr\<rparr>, w1))
            | WeakConjugateBase_constructor \<Rightarrow>
                (let ((s, pr), w1) = WeakConjugateBase_new H cls x y w
                 in (\<lparr>sprite = s, own_fields = ConjugateBase_fields pr\<rparr>, w1))
            | StrongConjugateBase_constructor \<Rightarrow>
                (let ((s, pr), w1) = StrongConjugateBase_new H cls x y w
                 in (\<lparr>sprite = s, own_fields = ConjugateBase_fields pr\<rparr>, w1)));
         r = next_ref w1
     in (r, w1\<lparr>heap := (heap w1)(r \<mapsto> obj), next_ref := Suc r\<rparr>))"

text \<open>
  The reaction table \<open>reacts_with\<close> an instance sees through its prototype chain, in the
  order of \<open>Object.keys\<close>: \<open>ConjugateBase.prototype.reacts_with\<close> has the one key
  \<open>"Proton"\<close>; \<open>Particle\<close> and \<open>Proton\<close> have the empty table.
\<close>

type_synonym reaction = "host \<Rightarrow> ref \<Rightarrow> ref \<Rightarrow> world \<Rightarrow> error + world"

definition reacts_with :: "particle_obj \<Rightarrow> (string \<times> reaction) list" where
  "reacts_with self =
    (case own_fields self of
       ConjugateBase_fields _ \<Rightarrow> [(''Proton'', reacts_with_Proton)]
     | _ \<Rightarrow> [])"

section \<open>Binary64 rounding\<close>

text \<open>
  \<open>round_even y\<close> is the integer nearest to \<open>y\<close>, the even one of two equally near.
  \<open>double_exponent x\<close> is the exponent of the unit in the last place of the binary64
  numbers of the magnitude of \<open>x\<close>: \<open>52\<close> below the binary exponent of \<open>x\<close>, and \<open>-1074\<close>
  in the subnormal range. \<open>round_double x\<close> is the multiple of
  \<open>2 powi double_exponent x\<close> nearest to \<open>x\<close>, ties to even: the result of a binary64
  operation whose exact result is \<open>x\<close>. The exponent has no upper limit here: a result
  beyond the largest binary64 number is not turned into \<open>Infinity\<close>.
\<close>

definition round_even :: "real \<Rightarrow> int" where
  "round_even y =
    (let f = \<lfloor>y\<rfloor> in
     if y - of_int f < 1/2 then f
     else if 1/2 < y - of_int f then f + 1
     else if even f then f else f + 1)"

definition double_exponent :: "real \<Rightarrow> int" where
  "double_exponent x = max \<lfloor>log 2 \<bar>x\<bar>\<rfloor> (- 1022) - 52"

definition round_double :: "real \<Rightarrow> real" where
  "round_double x =
    (if x = 0 then 0
     else of_int (round_even (x / 2 powi double_exponent x)) * 2 powi double_exponent x)"

section \<open>Beaker\<close>

record solution =
  solution_x :: real
  solution_y :: real
  solution_width :: real
  solution_height :: real
  solution_max_x :: real
  solution_max_y :: real

text \<open>
  The beaker: its position, the solution region, the group of all sprites and the hash
  \<open>particles\<close> from a type key to that type's sprite group. A group is the list of its
  sprites in the order they were added. Keys are assumed not to be names of
  \<open>Object.prototype\<close> members.
\<close>

record beaker =
  beaker_x :: real
  beaker_y :: real
  solution :: solution
  all_particle_sprites :: "ref list"
  particles :: "string \<rightharpoonup> ref list"

text \<open>The constructor \<open>Beaker\<close> (beaker.js lines 54-129), defaults written out by the caller.\<close>

definition Beaker :: "real \<Rightarrow> real \<Rightarrow> real \<Rightarrow> real \<Rightarrow> real option \<Rightarrow> real option \<Rightarrow> beaker" where
  "Beaker sw sh x y sx sy =
    (let x0 = (case sx of None \<Rightarrow> x | Some v \<Rightarrow> v);
         y0 = (case sy of None \<Rightarrow> y | Some v \<Rightarrow> v)
     in \<lparr>beaker_x = x, beaker_y = y,
         solution = \<lparr>solution_x = x0, solution_y = y0, solution_width = sw,
                     solution_height = sh, solution_max_x = round_double (x0 + sw),
                     solution_max_y = round_double (y0 + sh)\<rparr>,
         all_particle_sprites = [],
         particles = Map.empty\<rparr>)"

text \<open>
  \<open>Beaker.prototype.randomPoint\<close> (beaker.js lines 190-202). Doubling a binary64 number
  is exact, so \<open>particle_radius*2\<close> and \<open>2*particle_radius\<close> are written without
  rounding; every other operation is rounded.
\<close>

definition randomPoint :: "host \<Rightarrow> beaker \<Rightarrow> real \<Rightarrow> world \<Rightarrow> (real \<times> real) option \<times> world" where
  "randomPoint H bk particle_radius w =
    (if particle_radius * 2 \<ge> solution_width (solution bk) \<or>
        particle_radius * 2 \<ge> solution_height (solution bk)
     then (None, w)
     else
       let min_x = round_double (solution_x (solution bk) + particle_radius);
           min_y = round_double (solution_y (solution bk) + particle_radius);
           max_width = round_double (solution_width (solution bk) - 2 * particle_radius);
           max_height = round_double (solution_height (solution bk) - 2 * particle_radius);
           (r1, w1) = Math_random H w;
           (r2, w2) = Math_random H w1
       in (Some (round_double (min_x + round_double (r1 * max_width)),
                 round_double (min_y + round_double (r2 * max_height))), w2))"

text \<open>The engine's \<open>Group.add\<close>: a group holds a sprite once, new sprites go last.\<close>

definition Group_add :: "ref \<Rightarrow> ref list \<Rightarrow> ref list" where
  "Group_add s g = (if s \<in> set g then g else g @ [s])"

text \<open>\<open>Beaker.prototype.initParticleGroup\<close> (beaker.js lines 253-259).\<close>

definition initParticleGroup :: "string \<Rightarrow> beaker \<Rightarrow> beaker" where
  "initParticleGroup particle_key bk =
    (case particles bk particle_key of
       None \<Rightarrow> bk\<lparr>particles := (particles bk)(particle_key \<mapsto> [])\<rparr>
     | Some _ \<Rightarrow> bk)"

text \<open>\<open>Beaker.prototype.addParticle\<close> (beaker.js lines 230-233).\<close>

definition addParticle :: "string \<Rightarrow> ref \<Rightarrow> beaker \<Rightarrow> error + beaker" where
  "addParticle particle_key s bk =
    (case particles bk particle_key of
       None \<Rightarrow> Inl TypeError
     | Some g \<Rightarrow>
         Inr (bk\<lparr>particles := (particles bk)(particle_key \<mapsto> Group_add s g),
                 all_particle_sprites := Group_add s (all_particle_sprites bk)\<rparr>))"

text \<open>
  \<open>Beaker.prototype.addParticles\<close> (beaker.js lines 209-223): the group key is
  \<open>particle_class.prototype.name\<close>; the loop runs \<open>quantity\<close> times.
\<close>

fun addParticles_loop ::
  "host \<Rightarrow> particle_class \<Rightarrow> string \<Rightarrow> nat \<Rightarrow> beaker \<Rightarrow> world \<Rightarrow> error + beaker \<times> world" where
  "addParticles_loop H cls particle_name 0 bk w = Inr (bk, w)"
| "addParticles_loop H cls particle_name (Suc n) bk w =
    (case randomPoint H bk (collider_radius cls) w of
       (None, w1) \<Rightarrow> addParticles_loop H cls particle_name n bk w1
     | (Some (lx, ly), w1) \<Rightarrow>
         (let (r, w2) = new_particle H cls lx ly w1
          in case addParticle particle_name r bk of
               Inl e \<Rightarrow> Inl e
             | Inr bk' \<Rightarrow> addParticles_loop H cls particle_name n bk' w2))"

definition addParticles ::
  "host \<Rightarrow> particle_class \<Rightarrow> nat \<Rightarrow> beaker \<Rightarrow> world \<Rightarrow> error + beaker \<times> world" where
  "addParticles H particle_class quantity bk w =
    (let particle_name = property_key (prototype_name particle_class)
     in addParticles_loop H particle_class particle_name quantity
          (initParticleGroup particle_name bk) w)"

text \<open>
  Modelled from the spec: \<open>Particle.prototype.remove\<close>, which \<open>removeParticles\<close> calls and
  which is not among the sources. The spec says that a removed particle is detached from
  its group, and that removing a particle removes it from its per-type group and from the
  all-particles set. The heap object stays: a bond may still reference it.
\<close>

definition Particle_remove :: "ref \<Rightarrow> beaker \<Rightarrow> beaker" where
  "Particle_remove s bk =
    bk\<lparr>particles := (\<lambda>k. map_option (removeAll s) (particles bk k)),
       all_particle_sprites := removeAll s (all_particle_sprites bk)\<rparr>"

text \<open>
  \<open>Beaker.prototype.removeParticles\<close> (beaker.js lines 240-251): the group is looked up
  under \<open>particle_class.name\<close>; reading \<open>.sprites\<close> of a missing group throws. The loop
  counts \<open>i\<close> down from the clamped quantity to \<open>1\<close> and removes the sprite at index
  \<open>i-1\<close> of the group as it is then. The statement \<open>delete sprite.particle\<close> acts on a
  sprite that is in no group any more and is not modelled.
\<close>

fun removeParticles_loop :: "string \<Rightarrow> nat \<Rightarrow> beaker \<Rightarrow> error + beaker" where
  "removeParticles_loop particle_name 0 bk = Inr bk"
| "removeParticles_loop particle_name (Suc i) bk =
    (case particles bk particle_name of
       None \<Rightarrow> Inl TypeError
     | Some g \<Rightarrow>
         if i < length g
         then removeParticles_loop particle_name i (Particle_remove (g ! i) bk)
         else Inl TypeError)"

definition removeParticles :: "particle_class \<Rightarrow> nat \<Rightarrow> beaker \<Rightarrow> error + beaker" where
  "removeParticles particle_class quantity bk =
    (let particle_name = name particle_class
     in case particles bk particle_name of
          None \<Rightarrow> Inl TypeError
        | Some g \<Rightarrow>
            (let num_particles = length g;
                 quantity' = (if num_particles < quantity then num_particles else quantity)
             in removeParticles_loop particle_name quantity' bk))"

text \<open>
  \<open>Beaker.prototype.sprite_boundary_update\<close> (beaker.js lines 286-300): two separate
  \<open>if ... else if\<close> chains, the first for the x axis, the second for the y axis.
\<close>

definition sprite_boundary_update ::
  "host \<Rightarrow> sprite \<Rightarrow> real \<Rightarrow> real \<Rightarrow> real \<Rightarrow> real \<Rightarrow> sprite" where
  "sprite_boundary_update H s min_x min_y max_x max_y =
    (let s1 =
           (if overlapPoint H (position_x s, position_y s) (collider s) min_x (position_y s)
            then s\<lparr>velocity_x := \<bar>velocity_x s\<bar>\<rparr>
            else if overlapPoint H (position_x s, position_y s) (collider s) max_x (position_y s)
            then s\<lparr>velocity_x := - \<bar>velocity_x s\<bar>\<rparr>
            else s)
     in if overlapPoint H (position_x s1, position_y s1) (collider s1) (position_x s1) min_y
        then s1\<lparr>velocity_y := \<bar>velocity_y s1\<bar>\<rparr>
        else if overlapPoint H (position_x s1, position_y s1) (collider s1) (position_x s1) max_y
        then s1\<lparr>velocity_y := - \<bar>velocity_y s1\<bar>\<rparr>
        else s1)"

text \<open>
  The engine's \<open>sprite.overlap(group, callback)\<close>: the sprite is tested against every
  sprite of the group in order, and the callback runs on each overlapping pair.
\<close>

fun sprite_overlap :: "host \<Rightarrow> reaction \<Rightarrow> ref \<Rightarrow> ref list \<Rightarrow> world \<Rightarrow> error + world" where
  "sprite_overlap H callback s [] w = Inr w"
| "sprite_overlap H callback s (t # ts) w =
    (if (case (heap w s, heap w t) of
           (Some a, Some b) \<Rightarrow> overlap_test H (sprite a) (sprite b)
         | _ \<Rightarrow> False)
     then (case callback H s t w of
             Inl e \<Rightarrow> Inl e
           | Inr w' \<Rightarrow> sprite_overlap H callback s ts w')
     else sprite_overlap H callback s ts w)"

text \<open>
  \<open>Beaker.prototype.sprite_resolve_collisions\<close> (beaker.js lines 302-311): the keys of the
  table in order; a key with no group in the beaker is skipped.
\<close>

fun sprite_resolve_collisions ::
  "host \<Rightarrow> beaker \<Rightarrow> ref \<Rightarrow> (string \<times> reaction) list \<Rightarrow> world \<Rightarrow> error + world" where
  "sprite_resolve_collisions H bk s [] w = Inr w"
| "sprite_resolve_collisions H bk s ((target_key, reaction) # rest) w =
    (case particles bk target_key of
       None \<Rightarrow> sprite_resolve_collisions H bk s rest w
     | Some target_group \<Rightarrow>
         (case sprite_overlap H reaction s target_group w of
            Inl e \<Rightarrow> Inl e
          | Inr w' \<Rightarrow> sprite_resolve_collisions H bk s rest w'))"

text \<open>
  \<open>Beaker.prototype.update_particles\<close> (beaker.js lines 265-284) over the sprites of
  \<open>all_particle_sprites\<close> in order, and \<open>Beaker.prototype.step\<close>. Nothing in a step adds a
  sprite to the group or removes one.
\<close>

fun update_particles_loop :: "host \<Rightarrow> beaker \<Rightarrow> ref list \<Rightarrow> world \<Rightarrow> error + world" where
  "update_particles_loop H bk [] w = Inr w"
| "update_particles_loop H bk (j # js) w =
    (case heap w j of
       None \<Rightarrow> Inl TypeError
     | Some obj \<Rightarrow>
         (let w1 = w\<lparr>heap := (heap w)(j \<mapsto> obj\<lparr>sprite :=
                     sprite_boundary_update H (sprite obj)
                       (solution_x (solution bk)) (solution_y (solution bk))
                       (solution_max_x (solution bk)) (solution_max_y (solution bk))\<rparr>)\<rparr>
          in case sprite_resolve_collisions H bk j (reacts_with obj) w1 of
               Inl e \<Rightarrow> Inl e
             | Inr w2 \<Rightarrow>
                 (case update H j w2 of
                    Inl e \<Rightarrow> Inl e
                  | Inr w3 \<Rightarrow> update_particles_loop H bk js w3)))"

definition update_particles :: "host \<Rightarrow> beaker \<Rightarrow> world \<Rightarrow> error + world" where
  "update_particles H bk w = update_particles_loop H bk (all_particle_sprites bk) w"

definition step :: "host \<Rightarrow> beaker \<Rightarrow> world \<Rightarrow> error + world" where
  "step H bk w = update_particles H bk w"

section \<open>Concrete hosts, classes and worlds\<close>

text \<open>
  A host for concrete runs: the clock always reads \<open>t\<close>, the random source always draws
  \<open>r\<close>, a point overlaps a sprite when it lies strictly inside the sprite's circular
  collider, two sprites overlap when their collider circles do, and the \<open>n\<close>-th sprite
  gets depth \<open>n + 1\<close>.
\<close>

definition circle_overlapPoint :: "real \<times> real \<Rightarrow> real \<times> real \<times> real \<Rightarrow> real \<Rightarrow> real \<Rightarrow> bool" where
  "circle_overlapPoint pos col px py =
    (case (pos, col) of
       ((x, y), (ox, oy, rad)) \<Rightarrow> (x + ox - px)\<^sup>2 + (y + oy - py)\<^sup>2 < rad\<^sup>2)"

definition circle_overlap :: "sprite \<Rightarrow> sprite \<Rightarrow> bool" where
  "circle_overlap a b =
    (case (collider a, collider b) of
       ((ax, ay, ar), (bx, by, br)) \<Rightarrow>
         (position_x a + ax - (position_x b + bx))\<^sup>2 +
         (position_y a + ay - (position_y b + by))\<^sup>2 < (ar + br)\<^sup>2)"

definition fixed_host :: "real \<Rightarrow> real \<Rightarrow> host" where
  "fixed_host t r =
    \<lparr>clock = (\<lambda>_. t), random_source = (\<lambda>_. r),
     overlapPoint = circle_overlapPoint, overlap_test = circle_overlap,
     initial_depth = (\<lambda>n. real n + 1)\<rparr>"

definition new_world :: world where
  "new_world = \<lparr>heap = Map.empty, next_ref = 0, clock_reads = 0, random_draws = 0,
                sprites_created = 0\<rparr>"

text \<open>
  The classes of the sources with the constants their prototypes set (part_000 lines
  190, 206, 279, 295; weak.js lines 25, 43 and 69, 88). The static name and the
  prototype name are arguments: a bundler may change the first, and part_000 sets no
  prototype name.
\<close>

definition Proton_class :: "string \<Rightarrow> string option \<Rightarrow> particle_class" where
  "Proton_class n pn =
    \<lparr>name = n, prototype_name = pn, collider_offset_x = 0, collider_offset_y = 0,
     collider_radius = 6, max_velocity = 3, ctor = Proton_constructor\<rparr>"

definition ConjugateBase_class :: "string \<Rightarrow> string option \<Rightarrow> constructor \<Rightarrow> particle_class" where
  "ConjugateBase_class n pn c =
    \<lparr>name = n, prototype_name = pn, collider_offset_x = 0, collider_offset_y = 0,
     collider_radius = 16, max_velocity = 1/2, ctor = c\<rparr>"

definition WeakConjugateBase_class :: "string \<Rightarrow> particle_class" where
  "WeakConjugateBase_class n =
    ConjugateBase_class n (Some ''WeakConjugateBase'') WeakConjugateBase_constructor"

definition StrongConjugateBase_class :: "string \<Rightarrow> particle_class" where
  "StrongConjugateBase_class n =
    ConjugateBase_class n (Some ''StrongConjugateBase'') StrongConjugateBase_constructor"

text \<open>
  The beaker and the world after one weak conjugate base (object \<open>0\<close>) and then one
  proton (object \<open>1\<close>) were added to a new beaker \<open>100\<close> by \<open>100\<close> under a host whose
  random source always draws \<open>1/2\<close>: both land at \<open>(50, 50)\<close> with velocity \<open>0\<close>.
\<close>

definition host0 :: host where
  "host0 = fixed_host 1000 (1/2)"

definition beaker_pair :: beaker where
  "beaker_pair =
    \<lparr>beaker_x = 0, beaker_y = 0,
     solution = \<lparr>solution_x = 0, solution_y = 0, solution_width = 100, solution_height = 100,
                 solution_max_x = 100, solution_max_y = 100\<rparr>,
     all_particle_sprites = [0, 1],
     particles = [''WeakConjugateBase'' \<mapsto> [0], ''Proton'' \<mapsto> [1]]\<rparr>"

definition world_pair :: world where
  "world_pair =
    \<lparr>heap = [0 \<mapsto> \<lparr>sprite = \<lparr>position_x = 50, position_y = 50, velocity_x = 0, velocity_y = 0,
                             depth = Some 3, collider = (0, 0, 16)\<rparr>,
                   own_fields = ConjugateBase_fields
                     \<lparr>particle = None, offset_x = 10, offset_y = - 10, restore_depth = None,
                      release_after_range = (0, 2000), post_release_duration = 750,
                      release_after = None\<rparr>\<rparr>,
             1 \<mapsto> \<lparr>sprite = \<lparr>position_x = 50, position_y = 50, velocity_x = 0, velocity_y = 0,
                             depth = Some 5, collider = (0, 0, 6)\<rparr>,
                   own_fields = Proton_fields None\<rparr>],
     next_ref = 2, clock_reads = 0, random_draws = 14, sprites_created = 5\<rparr>"

text \<open>The bond record and the sprite of an object, read through the heap.\<close>

definition bond_of :: "world \<Rightarrow> ref \<Rightarrow> proton_hash option" where
  "bond_of w b =
    (case heap w b of
       Some obj \<Rightarrow> (case own_fields obj of ConjugateBase_fields proton \<Rightarrow> Some proton | _ \<Rightarrow> None)
     | None \<Rightarrow> None)"

definition sprite_of :: "world \<Rightarrow> ref \<Rightarrow> sprite option" where
  "sprite_of w r = map_option sprite (heap w r)"



text \<open>
  The beaker's groups are well-formed with respect to a world when every group lists
  each sprite once, lists allocated objects only, and no sprite is in the groups of two
  different keys. A new beaker is so, and \<open>addParticles\<close> keeps it so.
\<close>

definition beaker_wf :: "beaker \<Rightarrow> world \<Rightarrow> bool" where
  "beaker_wf bk w =
    ((\<forall>k g. particles bk k = Some g \<longrightarrow> distinct g \<and> (\<forall>s \<in> set g. s < next_ref w)) \<and>
     (\<forall>k k' g g'. k \<noteq> k' \<longrightarrow> particles bk k = Some g \<longrightarrow> particles bk k' = Some g' \<longrightarrow>
        set g \<inter> set g' = {}))"

text \<open>The beaker after three protons were added to a new beaker, in the order 0, 1, 2.\<close>

definition beaker_three_protons :: beaker where
  "beaker_three_protons =
    \<lparr>beaker_x = 0, beaker_y = 0,
     solution = \<lparr>solution_x = 0, solution_y = 0, solution_width = 100, solution_height = 100,
                 solution_max_x = 100, solution_max_y = 100\<rparr>,
     all_particle_sprites = [0, 1, 2],
     particles = [''Proton'' \<mapsto> [0, 1, 2]]\<rparr>"

text \<open>
  Bond symmetry: a base references a proton exactly when that proton references the
  base.
\<close>

definition bond_symmetric :: "world \<Rightarrow> bool" where
  "bond_symmetric w = (\<forall>b p. (proton_of w b = Some p) = (base_of w p = Some b))"

text \<open>
  The world after one step of the beaker with the pair (the base captures the proton at
  clock reading \<open>1000\<close> with draw \<open>1/2\<close>, so \<open>release_after = 2000\<close>, and its \<open>update\<close>
  puts the proton at the base's position plus \<open>(10, -10)\<close>), and the world after a later
  \<open>update\<close> of the base at clock reading \<open>2750\<close>, which releases the proton.
\<close>

definition world_after_step :: world where
  "world_after_step =
    \<lparr>heap = [0 \<mapsto> \<lparr>sprite = \<lparr>position_x = 50, position_y = 50, velocity_x = 0, velocity_y = 0,
                             depth = Some 3, collider = (0, 0, 16)\<rparr>,
                   own_fields = ConjugateBase_fields
                     \<lparr>particle = Some 1, offset_x = 10, offset_y = - 10, restore_depth = Some 5,
                      release_after_range = (0, 2000), post_release_duration = 750,
                      release_after = Some 2000\<rparr>\<rparr>,
             1 \<mapsto> \<lparr>sprite = \<lparr>position_x = 60, position_y = 40, velocity_x = 0, velocity_y = 0,
                             depth = Some (7/2), collider = (0, 0, 6)\<rparr>,
                   own_fields = Proton_fields (Some 0)\<rparr>],
     next_ref = 2, clock_reads = 2, random_draws = 15, sprites_created = 5\<rparr>"

definition world_released :: world where
  "world_released =
    \<lparr>heap = [0 \<mapsto> \<lparr>sprite = \<lparr>position_x = 50, position_y = 50, velocity_x = 0, velocity_y = 0,
                             depth = Some 3, collider = (0, 0, 16)\<rparr>,
                   own_fields = ConjugateBase_fields
                     \<lparr>particle = None, offset_x = 10, offset_y = - 10, restore_depth = None,
                      release_after_range = (0, 2000), post_release_duration = 750,
                      release_after = None\<rparr>\<rparr>,
             1 \<mapsto> \<lparr>sprite = \<lparr>position_x = 60, position_y = 40, velocity_x = 0, velocity_y = 0,
                             depth = Some 5, collider = (0, 0, 6)\<rparr>,
                   own_fields = Proton_fields None\<rparr>],
     next_ref = 2, clock_reads = 3, random_draws = 15, sprites_created = 5\<rparr>"

text \<open>
  A world's bonds are valid when every bond record with a truthy \<open>release_after\<close>
  references a proton that exists. The handler sets the two together and \<open>update\<close>
  clears them together.
\<close>

definition bonds_valid :: "world \<Rightarrow> bool" where
  "bonds_valid w =
    (\<forall>b pr ra. bond_of w b = Some pr \<longrightarrow> release_after pr = Some ra \<longrightarrow> ra \<noteq> 0 \<longrightarrow>
       (\<exists>q. particle pr = Some q \<and> is_Proton w q))"

text \<open>
  The beaker and the world after two weak conjugate bases were added to a new beaker:
  the beaker has no group for protons.
\<close>

definition beaker_two_bases :: beaker where
  "beaker_two_bases =
    \<lparr>beaker_x = 0, beaker_y = 0,
     solution = \<lparr>solution_x = 0, solution_y = 0, solution_width = 100, solution_height = 100,
                 solution_max_x = 100, solution_max_y = 100\<rparr>,
     all_particle_sprites = [0, 1],
     particles = [''WeakConjugateBase'' \<mapsto> [0, 1]]\<rparr>"

definition world_two_bases :: world where
  "world_two_bases =
    \<lparr>heap = [0 \<mapsto> \<lparr>sprite = \<lparr>position_x = 50, position_y = 50, velocity_x = 0, velocity_y = 0,
                             depth = Some 3, collider = (0, 0, 16)\<rparr>,
                   own_fields = ConjugateBase_fields
                     \<lparr>particle = None, offset_x = 10, offset_y = - 10, restore_depth = None,
                      release_after_range = (0, 2000), post_release_duration = 750,
                      release_after = None\<rparr>\<rparr>,
             1 \<mapsto> \<lparr>sprite = \<lparr>position_x = 50, position_y = 50, velocity_x = 0, velocity_y = 0,
                             depth = Some 6, collider = (0, 0, 16)\<rparr>,
                   own_fields = ConjugateBase_fields
                     \<lparr>particle = None, offset_x = 10, offset_y = - 10, restore_depth = None,
                      release_after_range = (0, 2000), post_release_duration = 750,
                      release_after = None\<rparr>\<rparr>],
     next_ref = 2, clock_reads = 0, random_draws = 16, sprites_created = 6\<rparr>"

text \<open>
  The allocator is sound when no object lives at or above the next address, and the
  invariant of the worlds a beaker reaches: sound allocator, symmetric bonds, valid bonds.
\<close>

definition heap_fresh :: "world \<Rightarrow> bool" where
  "heap_fresh w = (\<forall>r. next_ref w \<le> r \<longrightarrow> heap w r = None)"

definition world_inv :: "world \<Rightarrow> bool" where
  "world_inv w = (heap_fresh w \<and> bond_symmetric w \<and> bonds_valid w)"

text \<open>
  A beaker at \<open>x = 0.3\<close> whose solution is \<open>33.7\<close> wide and \<open>100\<close> high (the literals
  denote the nearest binary64 numbers), and a host whose random source always draws
  the binary64 number \<open>1 - 2^-52\<close>.
\<close>

definition beaker_offset :: beaker where
  "beaker_offset = Beaker (round_double (337 / 10)) 100 (round_double (3 / 10)) 0 None None"

definition host_high_draw :: host where
  "host_high_draw = fixed_host 1000 (1 - 1 / 2 ^ 52)"

text \<open>
  A world's timers are valid when every bond record has the offset \<open>(10, -10)\<close> and the
  \<open>post_release_duration\<close> \<open>750\<close> that the constructor sets and nothing changes, a
  \<open>release_after_range\<close> without a negative number (the constructors set \<open>[0, 5000]\<close>,
  \<open>[0, 2000]\<close> and \<open>[5000, 10000]\<close>), and a \<open>release_after\<close> that is \<open>null\<close> or positive.
  The handler stores a positive \<open>release_after\<close> when the clock reads a time after the
  epoch (\<open>wall_clock\<close>) and the random source draws from \<open>[0,1)\<close> (\<open>unit_draws\<close>).
\<close>

definition timers_valid :: "world \<Rightarrow> bool" where
  "timers_valid w =
    (\<forall>b pr. bond_of w b = Some pr \<longrightarrow>
       offset_x pr = 10 \<and> offset_y pr = - 10 \<and>
       0 \<le> fst (release_after_range pr) \<and> 0 \<le> snd (release_after_range pr) \<and>
       post_release_duration pr = 750 \<and>
       (\<forall>ra. release_after pr = Some ra \<longrightarrow> 0 < ra))"

definition wall_clock :: "host \<Rightarrow> bool" where
  "wall_clock H = (\<forall>n. 0 < clock H n)"

definition unit_draws :: "host \<Rightarrow> bool" where
  "unit_draws H = (\<forall>n. 0 \<le> random_source H n \<and> random_source H n < 1)"

section \<open>Rounding to binary64\<close>

text \<open>
  \<open>round_double\<close> keeps \<open>0\<close> and every integer below \<open>2 ^ 53\<close>, commutes with the sign, is
  monotone and idempotent; and its value at a given number is found from the binade of
  the number and the nearest integer multiple of the unit in the last place.
\<close>

lemma round_even_of_int: "round_even (of_int k) = k"
  by (simp add: round_even_def)

lemma round_even_eqI:
  assumes "\<bar>y - of_int k\<bar> < 1/2"
  shows "round_even y = k"
proof -
  consider "of_int k \<le> y" | "y < of_int k" by linarith
  then show ?thesis
  proof cases
    case 1
    with assms have "\<lfloor>y\<rfloor> = k" by (intro floor_unique) linarith+
    with assms 1 show ?thesis by (simp add: round_even_def)
  next
    case 2
    with assms have f: "\<lfloor>y\<rfloor> = k - 1" by (intro floor_unique) (simp, linarith)+
    with assms 2 have "1/2 < y - of_int \<lfloor>y\<rfloor>" by simp
    with f show ?thesis by (simp add: round_even_def)
  qed
qed

lemma round_even_mono:
  assumes "y \<le> z"
  shows "round_even y \<le> round_even z"
proof (cases "\<lfloor>y\<rfloor> = \<lfloor>z\<rfloor>")
  case True
  with assms show ?thesis by (auto simp: round_even_def Let_def)
next
  case False
  with assms have "\<lfloor>y\<rfloor> < \<lfloor>z\<rfloor>" using floor_mono[OF assms] by linarith
  moreover have "round_even y \<le> \<lfloor>y\<rfloor> + 1" by (auto simp: round_even_def Let_def)
  moreover have "\<lfloor>z\<rfloor> \<le> round_even z" by (auto simp: round_even_def Let_def)
  ultimately show ?thesis by linarith
qed

lemma round_even_uminus: "round_even (- y) = - round_even y"
proof (cases "y = of_int \<lfloor>y\<rfloor>")
  case True
  then have "round_even y = \<lfloor>y\<rfloor>" by (metis round_even_of_int)
  moreover have "- y = of_int (- \<lfloor>y\<rfloor>)" using True by simp
  then have "round_even (- y) = - \<lfloor>y\<rfloor>" by (metis round_even_of_int)
  ultimately show ?thesis by simp
next
  case False
  then have lt: "of_int \<lfloor>y\<rfloor> < y" by (metis of_int_floor_le order_less_le)
  have f: "\<lfloor>- y\<rfloor> = - \<lfloor>y\<rfloor> - 1" using lt by (intro floor_unique) (simp; linarith)+
  show ?thesis
    unfolding round_even_def Let_def f using lt by (auto; linarith?)
qed

lemma powi_pos: "0 < (2::real) powi e"
  by simp

lemma powi_mono: "a \<le> b \<Longrightarrow> (2::real) powi a \<le> 2 powi b"
  by (simp add: power_int_increasing)

lemma powr_powi: "(2::real) powr real_of_int e = 2 powi e"
  by (rule powr_real_of_int') simp_all

lemma floor_log2_iff:
  assumes "x \<noteq> 0"
  shows "\<lfloor>log 2 \<bar>x\<bar>\<rfloor> = e \<longleftrightarrow> 2 powi e \<le> \<bar>x\<bar> \<and> \<bar>x\<bar> < 2 powi (e + 1)"
proof -
  have pos: "0 < \<bar>x\<bar>" using assms by simp
  have "real_of_int e + 1 = real_of_int (e + 1)" by simp
  then have "2 powr (real_of_int e + 1) = (2::real) powi (e + 1)"
    by (simp only: powr_powi)
  then show ?thesis
    using floor_log_eq_powr_iff[OF pos, of 2 e] by (simp add: powr_powi)
qed

lemma floor_log2_bounds:
  assumes "x \<noteq> 0"
  shows "2 powi \<lfloor>log 2 \<bar>x\<bar>\<rfloor> \<le> \<bar>x\<bar>" "\<bar>x\<bar> < 2 powi (\<lfloor>log 2 \<bar>x\<bar>\<rfloor> + 1)"
  using floor_log2_iff[OF assms, of "\<lfloor>log 2 \<bar>x\<bar>\<rfloor>"] by simp_all

lemma floor_log2_eqI:
  assumes "2 powi e \<le> \<bar>x\<bar>" "\<bar>x\<bar> < 2 powi (e + 1)"
  shows "\<lfloor>log 2 \<bar>x\<bar>\<rfloor> = e"
proof -
  have "0 < \<bar>x\<bar>" by (rule less_le_trans[OF powi_pos assms(1)])
  then have "x \<noteq> 0" by simp
  from floor_log2_iff[OF this, of e] assms show ?thesis by simp
qed

lemma round_double_0: "round_double 0 = 0"
  by (simp add: round_double_def)

lemma double_exponent_uminus: "double_exponent (- x) = double_exponent x"
  by (simp add: double_exponent_def)

lemma round_double_uminus: "round_double (- x) = - round_double x"
  by (simp add: round_double_def double_exponent_uminus round_even_uminus)

lemma double_exponent_eqI:
  assumes "2 powi e \<le> \<bar>x\<bar>" "\<bar>x\<bar> < 2 powi (e + 1)"
  shows "double_exponent x = max e (- 1022) - 52"
  using floor_log2_eqI[OF assms] by (simp add: double_exponent_def)

lemma double_exponent_bounds:
  assumes "x \<noteq> 0"
  shows "\<bar>x\<bar> < 2 powi (double_exponent x + 53)"
    and "- 1022 < \<lfloor>log 2 \<bar>x\<bar>\<rfloor> \<Longrightarrow> 2 powi (double_exponent x + 52) \<le> \<bar>x\<bar>"
proof -
  have "\<lfloor>log 2 \<bar>x\<bar>\<rfloor> + 1 \<le> double_exponent x + 53" by (simp add: double_exponent_def)
  from powi_mono[OF this] floor_log2_bounds(2)[OF assms]
  show "\<bar>x\<bar> < 2 powi (double_exponent x + 53)" by linarith
  assume "- 1022 < \<lfloor>log 2 \<bar>x\<bar>\<rfloor>"
  then have "double_exponent x + 52 = \<lfloor>log 2 \<bar>x\<bar>\<rfloor>" by (simp add: double_exponent_def)
  with floor_log2_bounds(1)[OF assms] show "2 powi (double_exponent x + 52) \<le> \<bar>x\<bar>" by simp
qed

lemma round_double_representable:
  assumes x: "x = of_int m * 2 powi q" and q: "double_exponent x \<le> q"
  shows "round_double x = x"
proof (cases "x = 0")
  case True
  then show ?thesis by (simp add: round_double_0)
next
  case False
  define d where "d = double_exponent x"
  define n where "n = m * 2 ^ nat (q - d)"
  have "(2::real) powi q = 2 powi (q - d) * 2 powi d"
    by (simp flip: power_int_add)
  moreover have "(2::real) powi (q - d) = 2 ^ nat (q - d)"
    using q by (simp add: power_int_def d_def)
  ultimately have "x = of_int m * 2 ^ nat (q - d) * 2 powi d"
    using x by simp
  then have xn: "x = of_int n * 2 powi d" by (simp add: n_def)
  then have "x / 2 powi d = of_int n" by simp
  then have "round_even (x / 2 powi d) = n"
    by (simp only: round_even_of_int)
  then have "round_double x = of_int n * 2 powi d"
    using False by (simp add: round_double_def d_def)
  with xn show ?thesis by simp
qed

lemma round_double_eqI:
  assumes "2 powi e \<le> \<bar>x\<bar>" "\<bar>x\<bar> < 2 powi (e + 1)" "- 1022 \<le> e"
    and "\<bar>x / 2 powi (e - 52) - of_int k\<bar> < 1/2"
  shows "round_double x = of_int k * 2 powi (e - 52)"
proof -
  have "0 < \<bar>x\<bar>" by (rule less_le_trans[OF powi_pos assms(1)])
  then have nz: "x \<noteq> 0" by simp
  have d: "double_exponent x = e - 52"
    using double_exponent_eqI[OF assms(1,2)] assms(3) by simp
  show ?thesis using nz round_even_eqI[OF assms(4)] by (simp add: round_double_def d)
qed

lemma round_double_of_int:
  assumes "\<bar>k\<bar> < 2 ^ 53"
  shows "round_double (of_int k) = of_int k"
proof (cases "k = 0")
  case True
  then show ?thesis by (simp add: round_double_0)
next
  case False
  let ?x = "real_of_int k"
  have nz: "?x \<noteq> 0" using False by simp
  have "\<bar>?x\<bar> < 2 powi 53"
  proof -
    have "real_of_int \<bar>k\<bar> < real_of_int (2 ^ 53)" using assms by (simp only: of_int_less_iff)
    then show ?thesis by simp
  qed
  with floor_log2_bounds(1)[OF nz] have "(2::real) powi \<lfloor>log 2 \<bar>?x\<bar>\<rfloor> < 2 powi 53" by linarith
  then have "\<lfloor>log 2 \<bar>?x\<bar>\<rfloor> < 53" using powi_mono[of 53 "\<lfloor>log 2 \<bar>?x\<bar>\<rfloor>"] by linarith
  then have "double_exponent ?x \<le> 0" by (simp add: double_exponent_def)
  then show ?thesis by (intro round_double_representable[where m = k and q = 0]) simp_all
qed

lemma round_double_nonneg:
  assumes "0 \<le> x"
  shows "0 \<le> round_double x"
proof -
  have "0 \<le> x / 2 powi double_exponent x" using assms by simp
  from round_even_mono[OF this] have "0 \<le> round_even (x / 2 powi double_exponent x)"
    using round_even_of_int[of 0] by simp
  then show ?thesis by (simp add: round_double_def)
qed

lemma double_exponent_ge: "- 1074 \<le> double_exponent x"
  by (simp add: double_exponent_def)

lemma double_exponent_mono:
  assumes "0 < x" "x \<le> y"
  shows "double_exponent x \<le> double_exponent y"
proof -
  have "log 2 \<bar>x\<bar> \<le> log 2 \<bar>y\<bar>" using assms by simp
  from floor_mono[OF this] show ?thesis by (simp add: double_exponent_def)
qed

lemma round_double_le_binade:
  assumes "x \<noteq> 0"
  shows "\<bar>round_double x\<bar> \<le> 2 powi (double_exponent x + 53)"
proof -
  let ?d = "double_exponent x"
  have "\<bar>x\<bar> < 2 powi ?d * 2 powi 53"
    using double_exponent_bounds(1)[OF assms] by (simp add: power_int_add)
  then have "\<bar>x\<bar> / 2 powi ?d < 2 powi 53"
    by (simp add: divide_less_eq mult.commute)
  then have "\<bar>x / 2 powi ?d\<bar> < 2 ^ 53" by simp
  then have "x / 2 powi ?d \<le> 2 ^ 53" "- (2 ^ 53) \<le> x / 2 powi ?d" by linarith+
  then have b: "x / 2 powi ?d \<le> of_int (2 ^ 53)" "of_int (- (2 ^ 53)) \<le> x / 2 powi ?d"
    by simp_all
  from round_even_mono[OF b(1)] round_even_mono[OF b(2)]
  have "\<bar>round_even (x / 2 powi ?d)\<bar> \<le> 2 ^ 53"
    by (simp only: round_even_of_int)
  then have "real_of_int \<bar>round_even (x / 2 powi ?d)\<bar> \<le> real_of_int (2 ^ 53)"
    by (simp only: of_int_le_iff)
  then have "\<bar>real_of_int (round_even (x / 2 powi ?d))\<bar> \<le> 2 powi 53"
    by simp
  then have "\<bar>real_of_int (round_even (x / 2 powi ?d))\<bar> * 2 powi ?d \<le> 2 powi 53 * 2 powi ?d"
    by (intro mult_right_mono) simp_all
  then show ?thesis using assms
    by (simp add: round_double_def abs_mult power_int_add mult.commute)
qed

lemma round_double_ge_binade:
  assumes "0 < x" "- 1022 < \<lfloor>log 2 \<bar>x\<bar>\<rfloor>"
  shows "2 powi (double_exponent x + 52) \<le> round_double x"
proof -
  let ?d = "double_exponent x"
  have nz: "x \<noteq> 0" using assms by simp
  have "2 powi ?d * 2 powi 52 \<le> x"
    using double_exponent_bounds(2)[OF nz assms(2)] assms(1) by (simp add: power_int_add)
  then have "of_int (2 ^ 52) \<le> x / 2 powi ?d"
    by (simp add: le_divide_eq mult.commute)
  from round_even_mono[OF this] have "2 ^ 52 \<le> round_even (x / 2 powi ?d)"
    by (simp only: round_even_of_int)
  then have "real_of_int (2 ^ 52) \<le> real_of_int (round_even (x / 2 powi ?d))"
    by (simp only: of_int_le_iff)
  then have "2 powi 52 * 2 powi ?d \<le> real_of_int (round_even (x / 2 powi ?d)) * 2 powi ?d"
    by (intro mult_right_mono) simp_all
  then show ?thesis using nz by (simp add: round_double_def power_int_add mult.commute)
qed

lemma round_double_mono_pos:
  assumes "0 < x" "x \<le> y"
  shows "round_double x \<le> round_double y"
proof -
  let ?dx = "double_exponent x" and ?dy = "double_exponent y"
  have nz: "x \<noteq> 0" "y \<noteq> 0" "0 < y" using assms by simp_all
  from double_exponent_mono[OF assms] consider "?dx = ?dy" | "?dx < ?dy" by linarith
  then show ?thesis
  proof cases
    case 1
    have "x / 2 powi ?dx \<le> y / 2 powi ?dx" using assms(2) by (simp add: divide_right_mono)
    from round_even_mono[OF this]
    have "real_of_int (round_even (x / 2 powi ?dx)) \<le> real_of_int (round_even (y / 2 powi ?dx))"
      by simp
    then have "real_of_int (round_even (x / 2 powi ?dx)) * 2 powi ?dx
        \<le> real_of_int (round_even (y / 2 powi ?dx)) * 2 powi ?dx"
      by (intro mult_right_mono) simp_all
    then show ?thesis using nz 1 by (simp add: round_double_def)
  next
    case 2
    have "round_double x \<le> 2 powi (?dx + 53)"
      using round_double_le_binade[OF nz(1)] by linarith
    also have "\<dots> \<le> 2 powi (?dy + 52)" using 2 by (intro powi_mono) simp
    also have "\<dots> \<le> round_double y"
    proof (rule round_double_ge_binade[OF nz(3)])
      show "- 1022 < \<lfloor>log 2 \<bar>y\<bar>\<rfloor>"
        using 2 double_exponent_ge[of x] unfolding double_exponent_def by linarith
    qed
    finally show ?thesis .
  qed
qed

lemma round_double_mono:
  assumes "x \<le> y"
  shows "round_double x \<le> round_double y"
proof -
  consider "0 < x" | "x \<le> 0" "0 \<le> y" | "y < 0" by linarith
  then show ?thesis
  proof cases
    case 1
    from round_double_mono_pos[OF this assms] show ?thesis .
  next
    case 2
    from round_double_nonneg[of "- x"] 2(1) have "round_double x \<le> 0"
      by (simp add: round_double_uminus)
    with round_double_nonneg[OF 2(2)] show ?thesis by linarith
  next
    case 3
    then have "0 < - y" "- y \<le> - x" using assms by simp_all
    from round_double_mono_pos[OF this] show ?thesis by (simp add: round_double_uminus)
  qed
qed

lemma round_double_idem: "round_double (round_double x) = round_double x"
proof (cases "round_double x = 0")
  case True
  then show ?thesis by (simp add: round_double_0)
next
  case False
  then have nz: "x \<noteq> 0" by (auto simp: round_double_0)
  define d where "d = double_exponent x"
  define m where "m = round_even (x / 2 powi d)"
  have r: "round_double x = of_int m * 2 powi d"
    using nz by (simp add: round_double_def d_def m_def)
  from round_double_le_binade[OF nz]
  consider "\<bar>round_double x\<bar> < 2 powi (d + 53)" | "\<bar>round_double x\<bar> = 2 powi (d + 53)"
    unfolding d_def by linarith
  then show ?thesis
  proof cases
    case 1
    with floor_log2_bounds(1)[OF False]
    have "(2::real) powi \<lfloor>log 2 \<bar>round_double x\<bar>\<rfloor> < 2 powi (d + 53)" by linarith
    then have "\<lfloor>log 2 \<bar>round_double x\<bar>\<rfloor> < d + 53"
      using powi_mono[of "d + 53" "\<lfloor>log 2 \<bar>round_double x\<bar>\<rfloor>"] by linarith
    then have "double_exponent (round_double x) \<le> d"
      using double_exponent_ge[of x] by (simp add: double_exponent_def d_def)
    then show ?thesis by (intro round_double_representable[OF r])
  next
    case 2
    have "\<bar>round_double x\<bar> < 2 powi (d + 53 + 1)"
      unfolding 2 by (simp add: power_int_add)
    from double_exponent_eqI[OF _ this] 2 double_exponent_ge[of x]
    have de: "double_exponent (round_double x) \<le> d + 53" by (simp add: d_def)
    from 2 consider "round_double x = of_int 1 * 2 powi (d + 53)"
      | "round_double x = of_int (- 1) * 2 powi (d + 53)" by (auto simp: abs_if split: if_splits)
    then show ?thesis
    proof cases
      case 1
      from round_double_representable[OF this de] show ?thesis .
    next
      case 2
      from round_double_representable[OF this de] show ?thesis .
    qed
  qed
qed

lemma round_double_numeral:
  "(numeral n :: int) < 2 ^ 53 \<Longrightarrow> round_double (numeral n) = numeral n"
  using round_double_of_int[of "numeral n"] by simp

lemma round_double_1: "round_double 1 = 1"
  using round_double_of_int[of 1] by simp

lemmas round_double_simps = round_double_0 round_double_1 round_double_numeral

section \<open>Evaluating the concrete worlds\<close>

lemmas ctor_defs = new_particle_def Proton_new_def ConjugateBase_new_def WeakConjugateBase_new_def
  StrongConjugateBase_new_def Particle_new_def createSprite_def randomVelocity_def Math_random_def
  Proton_class_def ConjugateBase_class_def WeakConjugateBase_class_def StrongConjugateBase_class_def
  fixed_host_def new_world_def

lemmas beaker_defs = addParticles_def initParticleGroup_def Beaker_def randomPoint_def
  addParticle_def Group_add_def property_key_def round_double_simps

lemma pair_added:
  "\<exists>bk1 w1.
     addParticles host0 (WeakConjugateBase_class ''WeakConjugateBase'') 1
       (Beaker 100 100 0 0 None None) new_world = Inr (bk1, w1) \<and>
     addParticles host0 (Proton_class ''Proton'' (Some ''Proton'')) 1 bk1 w1 =
       Inr (beaker_pair, world_pair)"
  by (simp add: beaker_defs beaker_pair_def world_pair_def host0_def ctor_defs)

section \<open>Properties of the reaction handler\<close>

lemma reacts_with_Proton_bond:
  assumes "heap w p = Some pp" "own_fields pp = Proton_fields None"
      "heap w b = Some bp" "own_fields bp = ConjugateBase_fields pr" "particle pr = None"
  shows "reacts_with_Proton H b p w =
     Inr (w\<lparr>clock_reads := Suc (clock_reads w), random_draws := Suc (random_draws w),
          heap := (heap w)(b \<mapsto> bp\<lparr>own_fields := ConjugateBase_fields (pr
             \<lparr>release_after := Some (clock H (clock_reads w) + fst (release_after_range pr)
                   + snd (release_after_range pr) * random_source H (random_draws w)),
              particle := Some p,
              restore_depth := depth (sprite pp)\<rparr>)\<rparr>,
            p \<mapsto> pp\<lparr>own_fields := Proton_fields (Some b),
                     sprite := (sprite pp)\<lparr>depth := Some (to_number (depth (sprite bp)) + 1/2)\<rparr>\<rparr>)\<rparr>)"
  using assms
  by (simp add: reacts_with_Proton_def Date_now_def Math_random_def)

lemma reacts_with_Proton_noop:
  assumes "is_Proton w p" "is_ConjugateBase w b" "base_of w p \<noteq> None \<or> proton_of w b \<noteq> None"
  shows "reacts_with_Proton H b p w = Inr w"
  using assms
  by (auto simp: reacts_with_Proton_def is_Proton_def is_ConjugateBase_def base_of_def proton_of_def
      split: option.splits instance_fields.splits)

text \<open>
  C1. For every collision delivered to the handler (a ConjugateBase sprite and a Proton
  sprite), a bond is created exactly when the proton has no base and the base has no
  proton: then the handler returns and both reference fields point at each other;
  when either side is already bonded the handler returns the world unchanged.
\<close>

theorem C1_bond_iff_both_free:
  assumes "is_ConjugateBase w b" and "is_Proton w p"
  shows "(base_of w p = None \<and> proton_of w b = None \<longrightarrow>
            (\<exists>w'. reacts_with_Proton H b p w = Inr w' \<and>
                  proton_of w' b = Some p \<and> base_of w' p = Some b)) \<and>
         (\<not> (base_of w p = None \<and> proton_of w b = None) \<longrightarrow>
            reacts_with_Proton H b p w = Inr w)"
proof (intro conjI impI)
  assume free: "base_of w p = None \<and> proton_of w b = None"
  from assms(2) obtain pp bpo where pp: "heap w p = Some pp" "own_fields pp = Proton_fields bpo"
    by (auto simp: is_Proton_def split: option.splits instance_fields.splits)
  from assms(1) obtain bp pr where bp: "heap w b = Some bp" "own_fields bp = ConjugateBase_fields pr"
    by (auto simp: is_ConjugateBase_def split: option.splits instance_fields.splits)
  from free pp have [simp]: "bpo = None" by (simp add: base_of_def)
  from free bp have pr: "particle pr = None" by (simp add: proton_of_def)
  from pp bp have ne: "b \<noteq> p" by auto
  show "\<exists>w'. reacts_with_Proton H b p w = Inr w' \<and> proton_of w' b = Some p \<and> base_of w' p = Some b"
    using reacts_with_Proton_bond[OF pp(1) _ bp pr, of H] pp(2) ne
    by (simp add: proton_of_def base_of_def)
next
  assume "\<not> (base_of w p = None \<and> proton_of w b = None)"
  then show "reacts_with_Proton H b p w = Inr w"
    using reacts_with_Proton_noop[OF assms(2,1)] by blast
qed

theorem C1_bond_iff_both_free_witness:
  "is_ConjugateBase world_pair 0 \<and> is_Proton world_pair 1 \<and>
   base_of world_pair 1 = None \<and> proton_of world_pair 0 = None \<and>
   (\<exists>w'. reacts_with_Proton host0 0 1 world_pair = Inr w' \<and>
         proton_of w' 0 = Some 1 \<and> base_of w' 1 = Some 0)"
proof -
  have a: "is_ConjugateBase world_pair 0" and b: "is_Proton world_pair 1"
    and c: "base_of world_pair 1 = None" and d: "proton_of world_pair 0 = None"
    by (simp_all add: is_ConjugateBase_def is_Proton_def base_of_def proton_of_def world_pair_def)
  show ?thesis using C1_bond_iff_both_free[OF a b, of host0] a b c d by simp
qed

section \<open>Bond timing and the update tick\<close>

lemma bond_ofD:
  "bond_of w b = Some pr \<Longrightarrow> \<exists>bp. heap w b = Some bp \<and> own_fields bp = ConjugateBase_fields pr"
  by (auto simp: bond_of_def split: option.splits instance_fields.splits)

text \<open>
  What \<open>update\<close> does for a bond whose \<open>release_after\<close> is a non-zero number: before
  \<open>release_after\<close> the proton is put at the base's position plus the offset; from
  \<open>release_after\<close> until \<open>release_after + post_release_duration\<close> only the clock is read;
  from then on the depth is restored and the bond cleared on both sides.
\<close>

lemma ConjugateBase_update_free:
  assumes "bond_of w b = Some pr" "release_after pr = None"
  shows "ConjugateBase_update H b w = Inr w"
  using bond_ofD[OF assms(1)] assms(2) by (auto simp: ConjugateBase_update_def)

lemma ConjugateBase_update_bonded:
  assumes "heap w b = Some bp" "own_fields bp = ConjugateBase_fields pr"
    "release_after pr = Some ra" "ra \<noteq> 0" "particle pr = Some q" "heap w q = Some qp"
    "clock H (clock_reads w) < ra"
  shows "ConjugateBase_update H b w =
    Inr (w\<lparr>clock_reads := Suc (clock_reads w),
          heap := (heap w)(q \<mapsto> qp\<lparr>sprite := (sprite qp)
            \<lparr>position_x := position_x (sprite bp) + offset_x pr,
             position_y := position_y (sprite bp) + offset_y pr\<rparr>\<rparr>)\<rparr>)"
  using assms by (simp add: ConjugateBase_update_def Date_now_def)

lemma ConjugateBase_update_releasing:
  assumes "heap w b = Some bp" "own_fields bp = ConjugateBase_fields pr"
    "release_after pr = Some ra" "ra \<noteq> 0"
    "ra \<le> clock H (clock_reads w)" "clock H (clock_reads w) < ra + post_release_duration pr"
  shows "ConjugateBase_update H b w = Inr (w\<lparr>clock_reads := Suc (clock_reads w)\<rparr>)"
  using assms by (simp add: ConjugateBase_update_def Date_now_def)

lemma ConjugateBase_update_release:
  assumes "heap w b = Some bp" "own_fields bp = ConjugateBase_fields pr"
    "release_after pr = Some ra" "ra \<noteq> 0" "particle pr = Some q" "heap w q = Some qp"
    "own_fields qp = Proton_fields qb"
    "ra + post_release_duration pr \<le> clock H (clock_reads w)" "0 \<le> post_release_duration pr"
  shows "ConjugateBase_update H b w =
    Inr (w\<lparr>clock_reads := Suc (clock_reads w),
          heap := (heap w)
            (q \<mapsto> qp\<lparr>sprite := (sprite qp)\<lparr>depth := restore_depth pr\<rparr>,
                     own_fields := Proton_fields None\<rparr>,
             b \<mapsto> bp\<lparr>own_fields := ConjugateBase_fields
                     (pr\<lparr>restore_depth := None, release_after := None, particle := None\<rparr>)\<rparr>)\<rparr>)"
  using assms by (simp add: ConjugateBase_update_def Date_now_def)

text \<open>
  The three cases together, for a bond with a non-zero \<open>release_after\<close>, an existing
  proton and a non-negative \<open>post_release_duration\<close>.
\<close>

lemma ConjugateBase_update_phases:
  assumes bond: "bond_of w b = Some pr" and ra: "release_after pr = Some ra" "ra \<noteq> 0"
    and q: "particle pr = Some q" "is_Proton w q" and d: "0 \<le> post_release_duration pr"
  shows "\<exists>w'. ConjugateBase_update H b w = Inr w' \<and>
    (clock H (clock_reads w) < ra \<longrightarrow>
       map_option (\<lambda>s. (position_x s, position_y s)) (sprite_of w' q) =
         map_option (\<lambda>s. (position_x s + offset_x pr, position_y s + offset_y pr)) (sprite_of w b) \<and>
       bond_of w' b = Some pr \<and> base_of w' q = base_of w q) \<and>
    (ra \<le> clock H (clock_reads w) \<and> clock H (clock_reads w) < ra + post_release_duration pr \<longrightarrow>
       heap w' = heap w) \<and>
    (ra + post_release_duration pr \<le> clock H (clock_reads w) \<longrightarrow>
       map_option depth (sprite_of w' q) = Some (restore_depth pr) \<and>
       proton_of w' b = None \<and> base_of w' q = None \<and>
       map_option release_after (bond_of w' b) = Some None)"
proof -
  from bond_ofD[OF bond] obtain bp where
    bp: "heap w b = Some bp" "own_fields bp = ConjugateBase_fields pr" by blast
  from q(2) obtain qp qb where qp: "heap w q = Some qp" "own_fields qp = Proton_fields qb"
    by (auto simp: is_Proton_def split: option.splits instance_fields.splits)
  from bp qp have ne: "q \<noteq> b" by auto
  let ?now = "clock H (clock_reads w)"
  consider "?now < ra" | "ra \<le> ?now" "?now < ra + post_release_duration pr"
    | "ra + post_release_duration pr \<le> ?now" by linarith
  then show ?thesis
  proof cases
    case 1
    from ConjugateBase_update_bonded[OF bp ra q(1) qp(1) 1] 1 d ne bp qp show ?thesis
      by (simp add: sprite_of_def bond_of_def base_of_def)
  next
    case 2
    from ConjugateBase_update_releasing[OF bp ra 2] 2 show ?thesis by simp
  next
    case 3
    from ConjugateBase_update_release[OF bp ra q(1) qp 3 d] 3 d ne bp qp show ?thesis
      by (simp add: sprite_of_def bond_of_def base_of_def proton_of_def)
  qed
qed

text \<open>
  The release time a new bond gets: the clock reading plus \<open>release_after_range[0]\<close> plus
  \<open>release_after_range[1]\<close> times the random draw.
\<close>

lemma reacts_with_Proton_release_after:
  assumes "bond_of w b = Some pr" "particle pr = None" "is_Proton w p" "base_of w p = None"
  shows "\<exists>w'. reacts_with_Proton H b p w = Inr w' \<and>
           map_option release_after (bond_of w' b) =
             Some (Some (clock H (clock_reads w) + fst (release_after_range pr)
                         + snd (release_after_range pr) * random_source H (random_draws w)))"
proof -
  from bond_ofD[OF assms(1)] obtain bp where
    bp: "heap w b = Some bp" "own_fields bp = ConjugateBase_fields pr" by blast
  from assms(3,4) obtain pp where pp: "heap w p = Some pp" "own_fields pp = Proton_fields None"
    by (auto simp: is_Proton_def base_of_def split: option.splits instance_fields.splits)
  from bp pp have "b \<noteq> p" by auto
  then show ?thesis
    using reacts_with_Proton_bond[OF pp bp assms(2), of H] by (simp add: bond_of_def)
qed

text \<open>
  A release time is positive when the clock reads a time after the epoch and the range
  and the draw are not negative.
\<close>

lemma release_after_pos:
  fixes now r0 r1 r :: real
  assumes "0 < now" "0 \<le> r0" "0 \<le> r1" "0 \<le> r"
  shows "0 < now + r0 + r1 * r"
proof -
  have "0 \<le> r1 * r" using assms by simp
  with assms show ?thesis by linarith
qed



text \<open>
  C3. In a world whose timers and bonds are valid (as in every world a beaker reaches
  under a clock after the epoch, see the last section), for every base whose
  \<open>release_after\<close> is non-null, \<open>update\<close> returns, the bond references a proton, and:
  while \<open>now < release_after\<close> the proton's position is set to the base's position plus
  \<open>(10, -10)\<close>; while \<open>release_after \<le> now < release_after + post_release_duration\<close> the
  heap is left as it is; and once \<open>now \<ge> release_after + post_release_duration\<close> the
  proton's depth is restored, both references are cleared and \<open>release_after\<close> is cleared.
\<close>

theorem C3_update_phases:
  assumes tv: "timers_valid w" and bv: "bonds_valid w"
    and bond: "bond_of w b = Some pr" and ra: "release_after pr = Some ra"
  shows "\<exists>q w'. particle pr = Some q \<and> ConjugateBase_update H b w = Inr w' \<and>
    (clock H (clock_reads w) < ra \<longrightarrow>
       map_option (\<lambda>s. (position_x s, position_y s)) (sprite_of w' q) =
         map_option (\<lambda>s. (position_x s + 10, position_y s + - 10)) (sprite_of w b) \<and>
       bond_of w' b = Some pr \<and> base_of w' q = base_of w q) \<and>
    (ra \<le> clock H (clock_reads w) \<and> clock H (clock_reads w) < ra + post_release_duration pr \<longrightarrow>
       heap w' = heap w) \<and>
    (ra + post_release_duration pr \<le> clock H (clock_reads w) \<longrightarrow>
       map_option depth (sprite_of w' q) = Some (restore_depth pr) \<and>
       proton_of w' b = None \<and> base_of w' q = None \<and>
       map_option release_after (bond_of w' b) = Some None)"
proof -
  from tv bond ra have t: "offset_x pr = 10" "offset_y pr = - 10" "0 \<le> post_release_duration pr"
    "0 < ra" by (auto simp: timers_valid_def)
  then have nz: "ra \<noteq> 0" by simp
  from bv bond ra nz obtain q where q: "particle pr = Some q" "is_Proton w q"
    unfolding bonds_valid_def by blast
  from ConjugateBase_update_phases[OF bond ra nz q t(3), of H] q(1) show ?thesis
    unfolding t(1,2) by blast
qed

theorem C3_update_phases_witness:
  "timers_valid world_after_step \<and> bonds_valid world_after_step \<and>
   map_option release_after (bond_of world_after_step 0) = Some (Some 2000) \<and>
   proton_of world_after_step 0 = Some 1 \<and>
   (\<exists>w'. ConjugateBase_update (fixed_host 1500 0) 0 world_after_step = Inr w' \<and>
      map_option (\<lambda>s. (position_x s, position_y s)) (sprite_of w' 1) = Some (60, 40) \<and>
      bond_of w' 0 = bond_of world_after_step 0 \<and> base_of w' 1 = Some 0) \<and>
   (\<exists>w'. ConjugateBase_update (fixed_host 2300 0) 0 world_after_step = Inr w' \<and>
      heap w' = heap world_after_step) \<and>
   (\<exists>w'. ConjugateBase_update (fixed_host 2750 0) 0 world_after_step = Inr w' \<and>
      map_option depth (sprite_of w' 1) = Some (Some 5) \<and>
      proton_of w' 0 = None \<and> base_of w' 1 = None \<and>
      map_option release_after (bond_of w' 0) = Some None)"
proof -
  have tv: "timers_valid world_after_step"
    by (simp add: timers_valid_def bond_of_def world_after_step_def)
  have bv: "bonds_valid world_after_step"
    by (simp add: bonds_valid_def bond_of_def is_Proton_def world_after_step_def)
  obtain pr where pr: "bond_of world_after_step 0 = Some pr" "release_after pr = Some 2000"
    and f: "particle pr = Some 1" "post_release_duration pr = 750" "restore_depth pr = Some 5"
    by (simp add: bond_of_def world_after_step_def)
  have s: "sprite_of world_after_step 0 = Some \<lparr>position_x = 50, position_y = 50, velocity_x = 0,
      velocity_y = 0, depth = Some 3, collider = (0, 0, 16)\<rparr>"
    "base_of world_after_step 1 = Some 0" "proton_of world_after_step 0 = Some 1"
    by (simp_all add: sprite_of_def base_of_def proton_of_def world_after_step_def)
  have c: "clock (fixed_host t 0) n = t" for t n by (simp add: fixed_host_def)
  have 1: "\<exists>w'. ConjugateBase_update (fixed_host 1500 0) 0 world_after_step = Inr w' \<and>
      map_option (\<lambda>s. (position_x s, position_y s)) (sprite_of w' 1) = Some (60, 40) \<and>
      bond_of w' 0 = bond_of world_after_step 0 \<and> base_of w' 1 = Some 0"
    using C3_update_phases[OF tv bv pr, of "fixed_host 1500 0"] pr f s by (simp add: c) 
  have 2: "\<exists>w'. ConjugateBase_update (fixed_host 2300 0) 0 world_after_step = Inr w' \<and>
      heap w' = heap world_after_step"
    using C3_update_phases[OF tv bv pr, of "fixed_host 2300 0"] pr f s by (simp add: c)
  have 3: "\<exists>w'. ConjugateBase_update (fixed_host 2750 0) 0 world_after_step = Inr w' \<and>
      map_option depth (sprite_of w' 1) = Some (Some 5) \<and>
      proton_of w' 0 = None \<and> base_of w' 1 = None \<and>
      map_option release_after (bond_of w' 0) = Some None"
    using C3_update_phases[OF tv bv pr, of "fixed_host 2750 0"] pr f s by (simp add: c)
  from tv bv pr s 1 2 3 show ?thesis by simp
qed

section \<open>Boundary reflection\<close>

text \<open>
  What \<open>sprite_boundary_update\<close> does for any point test of the host: each axis is an
  \<open>if ... else if\<close> chain in which the left (top) test comes first; the resulting
  x-velocity depends on the two x-axis tests only and the resulting y-velocity on the two
  y-axis tests only; position, depth and collider are unchanged.
\<close>

lemma sprite_boundary_update_precedence:
  "let s' = sprite_boundary_update H s min_x min_y max_x max_y;
       at_left = overlapPoint H (position_x s, position_y s) (collider s) min_x (position_y s);
       at_right = overlapPoint H (position_x s, position_y s) (collider s) max_x (position_y s);
       at_top = overlapPoint H (position_x s, position_y s) (collider s) (position_x s) min_y;
       at_bottom = overlapPoint H (position_x s, position_y s) (collider s) (position_x s) max_y
   in (at_left \<longrightarrow> velocity_x s' = \<bar>velocity_x s\<bar> \<and> 0 \<le> velocity_x s') \<and>
      (\<not> at_left \<and> at_right \<longrightarrow> velocity_x s' = - \<bar>velocity_x s\<bar> \<and> velocity_x s' \<le> 0) \<and>
      (\<not> at_left \<and> \<not> at_right \<longrightarrow> velocity_x s' = velocity_x s) \<and>
      (at_top \<longrightarrow> velocity_y s' = \<bar>velocity_y s\<bar> \<and> 0 \<le> velocity_y s') \<and>
      (\<not> at_top \<and> at_bottom \<longrightarrow> velocity_y s' = - \<bar>velocity_y s\<bar> \<and> velocity_y s' \<le> 0) \<and>
      (\<not> at_top \<and> \<not> at_bottom \<longrightarrow> velocity_y s' = velocity_y s) \<and>
      position_x s' = position_x s \<and> position_y s' = position_y s \<and>
      depth s' = depth s \<and> collider s' = collider s"
  by (simp add: sprite_boundary_update_def Let_def)






section \<open>Placement\<close>

text \<open>
  The point \<open>randomPoint\<close> returns, for draws in \<open>[0,1)\<close>: each coordinate lies between
  the rounded minimum and the rounded sum of the minimum and the rounded extent.
\<close>

lemma random_coordinate_bounds:
  assumes u: "0 \<le> u" "u < 1" and fit: "2 * r < W"
  shows "round_double (sx + r) \<le>
           round_double (round_double (sx + r) + round_double (u * round_double (W - 2 * r)))"
    and "round_double (round_double (sx + r) + round_double (u * round_double (W - 2 * r))) \<le>
           round_double (round_double (sx + r) + round_double (W - 2 * r))"
proof -
  let ?m = "round_double (sx + r)" and ?e = "round_double (W - 2 * r)"
  have e: "0 \<le> ?e" using fit by (intro round_double_nonneg) simp
  have "0 \<le> u * ?e" "u * ?e \<le> ?e" using u e by (auto simp: mult_le_cancel_right1 mult_left_le_one_le)
  then have p: "0 \<le> round_double (u * ?e)" "round_double (u * ?e) \<le> ?e"
    using round_double_nonneg[of "u * ?e"] round_double_mono[of "u * ?e" ?e]
    by (simp_all add: round_double_idem)
  from p(1) have "?m \<le> ?m + round_double (u * ?e)" by simp
  from round_double_mono[OF this] show "?m \<le> round_double (?m + round_double (u * ?e))"
    by (simp add: round_double_idem)
  from p(2) have "?m + round_double (u * ?e) \<le> ?m + ?e" by simp
  from round_double_mono[OF this]
  show "round_double (?m + round_double (u * ?e)) \<le> round_double (?m + ?e)" .
qed

text \<open>
  When the offset, the extent and the radius are integers below \<open>2 ^ 50\<close> in magnitude,
  no operation of \<open>randomPoint\<close> on them rounds, and the rounded sum of the minimum and
  the extent is the maximum the constructor computed less the radius.
\<close>

lemma integer_coordinate_bounds:
  assumes "sx = of_int i" "r = of_int j" "W = of_int k"
    and "\<bar>i\<bar> < 2 ^ 50" "\<bar>j\<bar> < 2 ^ 50" "\<bar>k\<bar> < 2 ^ 50"
  shows "round_double (sx + r) = sx + r"
    and "round_double (round_double (sx + r) + round_double (W - 2 * r)) =
           round_double (sx + W) - r"
proof -
  have a: "round_double (of_int (i + j)) = of_int (i + j)"
    "round_double (of_int (k - 2 * j)) = of_int (k - 2 * j)"
    "round_double (of_int (i + k - j)) = of_int (i + k - j)"
    "round_double (of_int (i + k)) = of_int (i + k)"
    using assms(4-6) by (intro round_double_of_int; simp)+
  have m: "round_double (sx + r) = sx + r" using a(1) assms(1,2) by simp
  have e: "round_double (W - 2 * r) = W - 2 * r" using a(2) assms(2,3) by simp
  have s: "round_double (sx + W - r) = sx + W - r" using a(3) assms(1-3) by simp
  have x: "round_double (sx + W) = sx + W" using a(4) assms(1,3) by simp
  show "round_double (sx + r) = sx + r" by (rule m)
  have "sx + r + (W - 2 * r) = sx + W - r" by simp
  then show "round_double (round_double (sx + r) + round_double (W - 2 * r)) =
           round_double (sx + W) - r"
    unfolding m e x using s by simp
qed

text \<open>
  C7 as stated, that the point leaves room for the full radius on the right, fails in
  binary64 arithmetic. A beaker at \<open>x = 0.3\<close> with a solution \<open>33.7\<close> wide has
  \<open>solution.max_x = 34\<close>; for the radius \<open>16\<close> of a conjugate base and the draw
  \<open>1 - 2^-52\<close>, \<open>randomPoint\<close> returns \<open>x = 18 + 2^-48\<close>, which is above
  \<open>solution.max_x - particle_radius = 18\<close>.
\<close>

theorem C7_max_x_counterexample:
  "0 \<le> random_source host_high_draw 0 \<and> random_source host_high_draw 0 < 1 \<and>
   map_option fst (fst (randomPoint host_high_draw beaker_offset 16 new_world)) =
     Some (18 + 1 / 2 ^ 48) \<and>
   solution_max_x (solution beaker_offset) = 34 \<and>
   round_double (solution_max_x (solution beaker_offset) - 16) = 18 \<and>
   \<not> (18 + 1 / 2 ^ 48 \<le> solution_max_x (solution beaker_offset) - 16)"
proof -
  have d03: "round_double (3 / 10) = 5404319552844595 / 2 ^ 54"
  proof -
    have "round_double (3 / 10) = of_int 5404319552844595 * 2 powi (- 2 - 52)"
      by (rule round_double_eqI) simp_all
    then show ?thesis by simp
  qed
  have d337: "round_double (337 / 10) = 4742853357574554 / 2 ^ 47"
  proof -
    have "round_double (337 / 10) = of_int 4742853357574554 * 2 powi (5 - 52)"
      by (rule round_double_eqI) simp_all
    then show ?thesis by simp
  qed
  have max_x: "round_double (5404319552844595 / 2 ^ 54 + 4742853357574554 / 2 ^ 47) = 34"
  proof -
    have "round_double (5404319552844595 / 2 ^ 54 + 4742853357574554 / 2 ^ 47)
        = of_int 4785074604081152 * 2 powi (5 - 52)"
      by (rule round_double_eqI) simp_all
    then show ?thesis by simp
  qed
  have min_x: "round_double (5404319552844595 / 2 ^ 54 + 16) = 4588042120383693 / 2 ^ 48"
  proof -
    have "round_double (5404319552844595 / 2 ^ 54 + 16)
        = of_int 4588042120383693 * 2 powi (4 - 52)"
      by (rule round_double_eqI) simp_all
    then show ?thesis by simp
  qed
  have max_width: "round_double (4742853357574554 / 2 ^ 47 - 2 * 16) = 7656119366529856 / 2 ^ 52"
  proof -
    have "round_double (4742853357574554 / 2 ^ 47 - 2 * 16)
        = of_int 7656119366529856 * 2 powi (0 - 52)"
      by (rule round_double_eqI) simp_all
    then show ?thesis by simp
  qed
  have prod: "round_double ((1 - 1 / 2 ^ 52) * (7656119366529856 / 2 ^ 52)) =
      7656119366529854 / 2 ^ 52"
  proof -
    have "round_double ((1 - 1 / 2 ^ 52) * (7656119366529856 / 2 ^ 52))
        = of_int 7656119366529854 * 2 powi (0 - 52)"
      by (rule round_double_eqI) simp_all
    then show ?thesis by simp
  qed
  have x: "round_double (4588042120383693 / 2 ^ 48 + 7656119366529854 / 2 ^ 52) =
      18 + 1 / 2 ^ 48"
  proof -
    have "round_double (4588042120383693 / 2 ^ 48 + 7656119366529854 / 2 ^ 52)
        = of_int 5066549580791809 * 2 powi (4 - 52)"
      by (rule round_double_eqI) simp_all
    then show ?thesis by simp
  qed
  have sol: "solution beaker_offset =
      \<lparr>solution_x = 5404319552844595 / 2 ^ 54, solution_y = 0,
       solution_width = 4742853357574554 / 2 ^ 47, solution_height = 100,
       solution_max_x = 34, solution_max_y = 100\<rparr>"
    unfolding beaker_offset_def Beaker_def Let_def d03 d337
    using max_x by (simp add: round_double_simps)
  have fit: "\<not> (16 * 2 \<ge> (4742853357574554 / 2 ^ 47 :: real))" "\<not> (16 * 2 \<ge> (100 :: real))"
    by simp_all
  have "map_option fst (fst (randomPoint host_high_draw beaker_offset 16 new_world)) =
      Some (round_double (round_double (5404319552844595 / 2 ^ 54 + 16) +
              round_double ((1 - 1 / 2 ^ 52) *
                round_double (4742853357574554 / 2 ^ 47 - 2 * 16))))"
    unfolding randomPoint_def sol using fit
    by (simp add: host_high_draw_def fixed_host_def Math_random_def new_world_def Let_def
        del: distrib_right_numeral distrib_left_numeral)
  then have pt: "map_option fst (fst (randomPoint host_high_draw beaker_offset 16 new_world)) =
      Some (18 + 1 / 2 ^ 48)"
    unfolding min_x max_width prod x .
  have r18: "round_double (34 - 16) = 18" by (simp add: round_double_simps)
  show ?thesis
    using pt r18 by (simp add: sol host_high_draw_def fixed_host_def)
qed

text \<open>
  C7 (amended). With draws in \<open>[0,1)\<close>: \<open>randomPoint\<close> returns \<open>null\<close> exactly when twice
  the radius is at least the width or at least the height; in that case \<open>addParticles\<close>
  returns without error, having at most created the empty group of the type, with no
  sprite added, no object allocated and no random number drawn, whatever the quantity;
  otherwise the point has \<open>x\<close> between \<open>min_x\<close> and \<open>min_x + max_width\<close> and \<open>y\<close> between
  \<open>min_y\<close> and \<open>min_y + max_height\<close>, these being the binary64 values of
  \<open>solution.x + particle_radius\<close>, \<open>solution.width - 2*particle_radius\<close> and their sum (and
  likewise for \<open>y\<close>). When the offsets, the extents and the radius are integers below
  \<open>2 ^ 50\<close> in magnitude and \<open>max_x\<close>, \<open>max_y\<close> are as the constructor sets them, these are
  the bounds \<open>solution.x + particle_radius\<close> and \<open>solution.max_x - particle_radius\<close> (and
  likewise for \<open>y\<close>) computed exactly.
\<close>

theorem C7_randomPoint:
  assumes rnd: "\<forall>n. 0 \<le> random_source H n \<and> random_source H n < 1"
  shows "((fst (randomPoint H bk particle_radius w) = None) =
            (particle_radius * 2 \<ge> solution_width (solution bk) \<or>
             particle_radius * 2 \<ge> solution_height (solution bk))) \<and>
         (collider_radius cls * 2 \<ge> solution_width (solution bk) \<or>
          collider_radius cls * 2 \<ge> solution_height (solution bk) \<longrightarrow>
            addParticles H cls quantity bk w =
              Inr (initParticleGroup (property_key (prototype_name cls)) bk, w) \<and>
            all_particle_sprites (initParticleGroup (property_key (prototype_name cls)) bk) =
              all_particle_sprites bk \<and>
            particles (initParticleGroup (property_key (prototype_name cls)) bk)
                (property_key (prototype_name cls)) =
              Some (case particles bk (property_key (prototype_name cls)) of
                      None \<Rightarrow> [] | Some g \<Rightarrow> g)) \<and>
         (\<forall>px py. fst (randomPoint H bk particle_radius w) = Some (px, py) \<longrightarrow>
            (let min_x = round_double (solution_x (solution bk) + particle_radius);
                 min_y = round_double (solution_y (solution bk) + particle_radius);
                 max_width = round_double (solution_width (solution bk) - 2 * particle_radius);
                 max_height = round_double (solution_height (solution bk) - 2 * particle_radius)
             in min_x \<le> px \<and> px \<le> round_double (min_x + max_width) \<and>
                min_y \<le> py \<and> py \<le> round_double (min_y + max_height)) \<and>
            (\<forall>i j k l m.
               solution_x (solution bk) = of_int i \<and> solution_y (solution bk) = of_int j \<and>
               solution_width (solution bk) = of_int k \<and> solution_height (solution bk) = of_int l \<and>
               particle_radius = of_int m \<and>
               \<bar>i\<bar> < 2 ^ 50 \<and> \<bar>j\<bar> < 2 ^ 50 \<and> \<bar>k\<bar> < 2 ^ 50 \<and> \<bar>l\<bar> < 2 ^ 50 \<and> \<bar>m\<bar> < 2 ^ 50 \<and>
               solution_max_x (solution bk) =
                 round_double (solution_x (solution bk) + solution_width (solution bk)) \<and>
               solution_max_y (solution bk) =
                 round_double (solution_y (solution bk) + solution_height (solution bk)) \<longrightarrow>
               solution_x (solution bk) + particle_radius \<le> px \<and>
               px \<le> solution_max_x (solution bk) - particle_radius \<and>
               solution_y (solution bk) + particle_radius \<le> py \<and>
               py \<le> solution_max_y (solution bk) - particle_radius))"
proof (intro conjI impI allI)
  show "(fst (randomPoint H bk particle_radius w) = None) =
            (particle_radius * 2 \<ge> solution_width (solution bk) \<or>
             particle_radius * 2 \<ge> solution_height (solution bk))"
    by (simp add: randomPoint_def Math_random_def Let_def)
next
  assume nofit: "collider_radius cls * 2 \<ge> solution_width (solution bk) \<or>
          collider_radius cls * 2 \<ge> solution_height (solution bk)"
  have "addParticles_loop H cls k n b w = Inr (b, w)" if "solution b = solution bk" for k n b
    using that nofit by (induction n) (auto simp: randomPoint_def)
  then show "addParticles H cls quantity bk w =
              Inr (initParticleGroup (property_key (prototype_name cls)) bk, w)"
    by (simp add: addParticles_def initParticleGroup_def split: option.splits)
next
  show "all_particle_sprites (initParticleGroup (property_key (prototype_name cls)) bk) =
              all_particle_sprites bk"
    by (simp add: initParticleGroup_def split: option.splits)
next
  show "particles (initParticleGroup (property_key (prototype_name cls)) bk)
                (property_key (prototype_name cls)) =
              Some (case particles bk (property_key (prototype_name cls)) of
                      None \<Rightarrow> [] | Some g \<Rightarrow> g)"
    by (simp add: initParticleGroup_def split: option.splits)
next
  fix px py
  assume p: "fst (randomPoint H bk particle_radius w) = Some (px, py)"
  define u where "u = random_source H (random_draws w)"
  define v where "v = random_source H (Suc (random_draws w))"
  from p have fit: "2 * particle_radius < solution_width (solution bk)"
      "2 * particle_radius < solution_height (solution bk)"
    and px: "px = round_double (round_double (solution_x (solution bk) + particle_radius) +
        round_double (u * round_double (solution_width (solution bk) - 2 * particle_radius)))"
    and py: "py = round_double (round_double (solution_y (solution bk) + particle_radius) +
        round_double (v * round_double (solution_height (solution bk) - 2 * particle_radius)))"
    by (auto simp: randomPoint_def Math_random_def Let_def u_def v_def split: if_splits)
  from rnd have u: "0 \<le> u" "u < 1" and v: "0 \<le> v" "v < 1" by (auto simp: u_def v_def)
  note b_x = random_coordinate_bounds[OF u fit(1), of "solution_x (solution bk)", folded px]
  note b_y = random_coordinate_bounds[OF v fit(2), of "solution_y (solution bk)", folded py]
  show "let min_x = round_double (solution_x (solution bk) + particle_radius);
            min_y = round_double (solution_y (solution bk) + particle_radius);
            max_width = round_double (solution_width (solution bk) - 2 * particle_radius);
            max_height = round_double (solution_height (solution bk) - 2 * particle_radius)
        in min_x \<le> px \<and> px \<le> round_double (min_x + max_width) \<and>
           min_y \<le> py \<and> py \<le> round_double (min_y + max_height)"
    using b_x b_y by (simp add: Let_def)
  fix i j k l m
  assume int: "solution_x (solution bk) = of_int i \<and> solution_y (solution bk) = of_int j \<and>
      solution_width (solution bk) = of_int k \<and> solution_height (solution bk) = of_int l \<and>
      particle_radius = of_int m \<and>
      \<bar>i\<bar> < 2 ^ 50 \<and> \<bar>j\<bar> < 2 ^ 50 \<and> \<bar>k\<bar> < 2 ^ 50 \<and> \<bar>l\<bar> < 2 ^ 50 \<and> \<bar>m\<bar> < 2 ^ 50 \<and>
      solution_max_x (solution bk) =
        round_double (solution_x (solution bk) + solution_width (solution bk)) \<and>
      solution_max_y (solution bk) =
        round_double (solution_y (solution bk) + solution_height (solution bk))"
  then have ix: "solution_x (solution bk) = of_int i" "particle_radius = of_int m"
      "solution_width (solution bk) = of_int k" "\<bar>i\<bar> < 2 ^ 50" "\<bar>m\<bar> < 2 ^ 50" "\<bar>k\<bar> < 2 ^ 50"
    and iy: "solution_y (solution bk) = of_int j" "particle_radius = of_int m"
      "solution_height (solution bk) = of_int l" "\<bar>j\<bar> < 2 ^ 50" "\<bar>m\<bar> < 2 ^ 50" "\<bar>l\<bar> < 2 ^ 50"
    and mx: "solution_max_x (solution bk) =
        round_double (solution_x (solution bk) + solution_width (solution bk))"
      "solution_max_y (solution bk) =
        round_double (solution_y (solution bk) + solution_height (solution bk))"
    by simp_all
  note ex = integer_coordinate_bounds[OF ix]
  note ey = integer_coordinate_bounds[OF iy]
  show "solution_x (solution bk) + particle_radius \<le> px" using b_x(1) ex(1) by simp
  show "px \<le> solution_max_x (solution bk) - particle_radius" using b_x(2) ex(2) mx(1) by simp
  show "solution_y (solution bk) + particle_radius \<le> py" using b_y(1) ey(1) by simp
  show "py \<le> solution_max_y (solution bk) - particle_radius" using b_y(2) ey(2) mx(2) by simp
qed

theorem C7_randomPoint_witness:
  "(\<forall>n. 0 \<le> random_source host0 n \<and> random_source host0 n < 1) \<and>
   solution_max_x (solution (Beaker 100 100 0 0 None None)) = 100 \<and>
   solution_max_y (solution (Beaker 100 100 0 0 None None)) = 100 \<and>
   fst (randomPoint host0 (Beaker 100 100 0 0 None None) 6 new_world) = Some (50, 50) \<and>
   solution_x (solution (Beaker 100 100 0 0 None None)) + 6 \<le> 50 \<and>
   50 \<le> solution_max_x (solution (Beaker 100 100 0 0 None None)) - 6 \<and>
   solution_y (solution (Beaker 100 100 0 0 None None)) + 6 \<le> 50 \<and>
   50 \<le> solution_max_y (solution (Beaker 100 100 0 0 None None)) - 6 \<and>
   fst (randomPoint host0 (Beaker 10 100 0 0 None None) 6 new_world) = None \<and>
   addParticles host0 (Proton_class ''Proton'' (Some ''Proton'')) 1000
       (Beaker 10 100 0 0 None None) new_world =
     Inr (initParticleGroup ''Proton'' (Beaker 10 100 0 0 None None), new_world) \<and>
   all_particle_sprites (initParticleGroup ''Proton'' (Beaker 10 100 0 0 None None)) = [] \<and>
   particles (initParticleGroup ''Proton'' (Beaker 10 100 0 0 None None)) ''Proton'' = Some []"
proof -
  have rnd: "\<forall>n. 0 \<le> random_source host0 n \<and> random_source host0 n < 1"
    by (simp add: host0_def fixed_host_def)
  have point: "fst (randomPoint host0 (Beaker 100 100 0 0 None None) 6 new_world) = Some (50, 50)"
    by (simp add: randomPoint_def Beaker_def host0_def fixed_host_def Math_random_def new_world_def
        round_double_simps)
  show ?thesis
    using C7_randomPoint[OF rnd, of "Beaker 100 100 0 0 None None" 6 new_world
        "Proton_class ''Proton'' (Some ''Proton'')" 0]
      C7_randomPoint[OF rnd, of "Beaker 10 100 0 0 None None" 6 new_world
        "Proton_class ''Proton'' (Some ''Proton'')" 1000]
      rnd point
    by (simp add: Beaker_def Proton_class_def property_key_def round_double_simps)
qed

section \<open>Removal\<close>

text \<open>
  C8. \<open>removeParticles\<close> is to succeed for every particle type, also one that was never
  added. Evaluated on a new beaker: for every quantity it throws, because the group of
  the type does not exist and \<open>.sprites\<close> is read from \<open>undefined\<close>.
\<close>

theorem C8_removeParticles_missing_group:
  "\<forall>quantity. removeParticles (Proton_class ''Proton'' (Some ''Proton'')) quantity
      (Beaker 100 100 0 0 None None) = Inl TypeError"
  by (simp add: removeParticles_def Beaker_def Proton_class_def)

section \<open>The removal loop\<close>

text \<open>
  Removing a list of sprites one after the other filters each of them out of every group
  and out of the group of all sprites.
\<close>

lemma fold_Particle_remove:
  "fold Particle_remove xs bk =
     bk\<lparr>particles := (\<lambda>k. map_option (filter (\<lambda>s. s \<notin> set xs)) (particles bk k)),
        all_particle_sprites := filter (\<lambda>s. s \<notin> set xs) (all_particle_sprites bk)\<rparr>"
proof (induction xs arbitrary: bk)
  case Nil
  show ?case by (simp add: option.map_ident)
next
  case (Cons x xs)
  have h: "filter (\<lambda>s. s \<notin> set xs) (removeAll x g) = filter (\<lambda>s. s \<notin> set (x # xs)) g" for g
    by (induction g) auto
  have "fold Particle_remove (x # xs) bk = fold Particle_remove xs (Particle_remove x bk)"
    by simp
  also have "\<dots> = (Particle_remove x bk)
      \<lparr>particles := (\<lambda>k. map_option (filter (\<lambda>s. s \<notin> set xs)) (particles (Particle_remove x bk) k)),
       all_particle_sprites := filter (\<lambda>s. s \<notin> set xs) (all_particle_sprites (Particle_remove x bk))\<rparr>"
    by (rule Cons.IH)
  also have "\<dots> = bk
      \<lparr>particles := (\<lambda>k. map_option (filter (\<lambda>s. s \<notin> set (x # xs))) (particles bk k)),
       all_particle_sprites := filter (\<lambda>s. s \<notin> set (x # xs)) (all_particle_sprites bk)\<rparr>"
    unfolding Particle_remove_def by (simp add: option.map_comp comp_def h del: set_simps)
  finally show ?case .
qed

text \<open>
  The loop of \<open>removeParticles\<close>, run \<open>m\<close> times on a group without repetitions, removes
  the sprites at the indices \<open>m-1\<close> down to \<open>0\<close>, in that order.
\<close>

lemma removeAll_nth_distinct:
  assumes "distinct g" "i < length g"
  shows "removeAll (g ! i) g = take i g @ drop (Suc i) g"
proof -
  have g: "g = take i g @ g ! i # drop (Suc i) g"
    using assms(2) by (simp add: id_take_nth_drop)
  from assms(1) have "distinct (take i g @ g ! i # drop (Suc i) g)"
    by (subst (asm) g)
  then have "g ! i \<notin> set (take i g)" "g ! i \<notin> set (drop (Suc i) g)"
    by auto
  then show ?thesis
    by (subst g) (simp del: append_take_drop_id)
qed

lemma removeParticles_loop_fold:
  assumes "particles bk k = Some g" "distinct g" "m \<le> length g"
  shows "removeParticles_loop k m bk = Inr (fold Particle_remove (rev (take m g)) bk)"
  using assms
proof (induction m arbitrary: bk g)
  case 0
  then show ?case by simp
next
  case (Suc i)
  let ?bk = "Particle_remove (g ! i) bk"
  let ?g = "take i g @ drop (Suc i) g"
  from Suc.prems have i: "i < length g" by simp
  have grp: "particles ?bk k = Some ?g"
    using Suc.prems(1,2) i by (simp add: Particle_remove_def removeAll_nth_distinct)
  have "distinct (take i g @ g ! i # drop (Suc i) g)"
    using Suc.prems(2) i by (simp add: id_take_nth_drop[symmetric])
  then have d: "distinct ?g" by auto
  have len: "i \<le> length ?g" using i by simp
  have tk: "take i ?g = take i g" using i by simp
  have "removeParticles_loop k (Suc i) bk = removeParticles_loop k i ?bk"
    using Suc.prems(1) i by simp
  also have "\<dots> = Inr (fold Particle_remove (rev (take i ?g)) ?bk)"
    by (rule Suc.IH[OF grp d len])
  also have "\<dots> = Inr (fold Particle_remove (rev (take (Suc i) g)) bk)"
    using i by (simp add: tk take_Suc_conv_app_nth)
  finally show ?case .
qed
lemma add_three_protons:
  "map_sum id fst (addParticles host0 (Proton_class ''Proton'' (Some ''Proton'')) 3
      (Beaker 100 100 0 0 None None) new_world) = Inr beaker_three_protons"
  by (simp add: beaker_defs eval_nat_numeral beaker_three_protons_def host0_def ctor_defs)

text \<open>
  C6 as stated, that the removed particles are the most recently added ones, fails: after
  three protons were added in the order 0, 1, 2, removing one removes proton 0, the one
  added first, and leaves 1 and 2.
\<close>

theorem C6_removes_earliest_counterexample:
  "map_sum id fst (addParticles host0 (Proton_class ''Proton'' (Some ''Proton'')) 3
      (Beaker 100 100 0 0 None None) new_world) = Inr beaker_three_protons \<and>
   particles beaker_three_protons ''Proton'' = Some [0, 1, 2] \<and>
   map_sum id (\<lambda>bk. particles bk ''Proton'')
     (removeParticles (Proton_class ''Proton'' (Some ''Proton'')) 1 beaker_three_protons) =
       Inr (Some [1, 2])"
proof (intro conjI)
  show "map_sum id fst (addParticles host0 (Proton_class ''Proton'' (Some ''Proton'')) 3
      (Beaker 100 100 0 0 None None) new_world) = Inr beaker_three_protons"
    by (rule add_three_protons)
qed (simp_all add: removeParticles_def beaker_three_protons_def Proton_class_def
       Particle_remove_def)

text \<open>
  C6 (amended). For a beaker whose group under \<open>particle_class.name\<close> exists and holds
  \<open>n\<close> sprites, \<open>removeParticles(type, quantity)\<close> returns without error and removes
  \<open>min(quantity, n)\<close> sprites of the group: those at the indices \<open>min(quantity, n) - 1\<close>
  down to \<open>0\<close>, in that order, that is the earliest added ones; the group that remains is
  the rest, the most recently added ones.
\<close>

theorem C6_removeParticles:
  assumes "particles bk (name cls) = Some g" and "distinct g"
  shows "removeParticles cls quantity bk =
           Inr (fold Particle_remove (rev (take (min quantity (length g)) g)) bk) \<and>
         particles (fold Particle_remove (rev (take (min quantity (length g)) g)) bk) (name cls) =
           Some (drop (min quantity (length g)) g) \<and>
         length (drop (min quantity (length g)) g) = length g - min quantity (length g)"
proof -
  let ?m = "min quantity (length g)"
  have m: "?m = (if length g < quantity then length g else quantity)" by simp
  have "removeParticles cls quantity bk = removeParticles_loop (name cls) ?m bk"
    using assms(1) unfolding removeParticles_def Let_def m by simp
  also have "\<dots> = Inr (fold Particle_remove (rev (take ?m g)) bk)"
    by (rule removeParticles_loop_fold[OF assms]) simp
  finally have 1: "removeParticles cls quantity bk =
      Inr (fold Particle_remove (rev (take ?m g)) bk)" .
  have "filter (\<lambda>s. s \<notin> set (take ?m g)) g = drop ?m g"
  proof -
    have dj: "set (take ?m g) \<inter> set (drop ?m g) = {}"
      using assms(2) by (simp add: set_take_disj_set_drop_if_distinct)
    have "filter (\<lambda>s. s \<notin> set (take ?m g)) (take ?m g @ drop ?m g) = drop ?m g"
      unfolding filter_append using dj by (auto simp: filter_id_conv filter_empty_conv)
    then show ?thesis by simp
  qed
  then have 2: "particles (fold Particle_remove (rev (take ?m g)) bk) (name cls) = Some (drop ?m g)"
    using assms(1) by (simp add: fold_Particle_remove)
  show ?thesis using 1 2 by simp
qed

theorem C6_removeParticles_witness:
  "particles beaker_three_protons ''Proton'' = Some [0, 1, 2] \<and> distinct [0::nat, 1, 2] \<and>
   removeParticles (Proton_class ''Proton'' (Some ''Proton'')) 2 beaker_three_protons =
     Inr (fold Particle_remove [1, 0] beaker_three_protons) \<and>
   particles (fold Particle_remove [1, 0] beaker_three_protons) ''Proton'' = Some [2] \<and>
   removeParticles (Proton_class ''Proton'' (Some ''Proton'')) 1000 beaker_three_protons =
     Inr (fold Particle_remove [2, 1, 0] beaker_three_protons) \<and>
   particles (fold Particle_remove [2, 1, 0] beaker_three_protons) ''Proton'' = Some []"
proof -
  have g: "particles beaker_three_protons (name (Proton_class ''Proton'' (Some ''Proton''))) =
      Some [0, 1, 2]"
    by (simp add: beaker_three_protons_def Proton_class_def)
  have d: "distinct [0::nat, 1, 2]" by simp
  have n: "name (Proton_class ''Proton'' (Some ''Proton'')) = ''Proton''"
    by (simp add: Proton_class_def)
  show ?thesis
    using C6_removeParticles[OF g d, of 2] C6_removeParticles[OF g d, of 1000] g
    by (simp add: n eval_nat_numeral)
qed

section \<open>The group key of addParticles and of removeParticles\<close>

lemma randomPoint_next_ref: "next_ref (snd (randomPoint H bk r w)) = next_ref w"
  by (simp add: randomPoint_def Math_random_def Let_def)

lemma createSprite_next_ref: "next_ref (snd (createSprite H cls x y w)) = next_ref w"
  by (simp add: createSprite_def randomVelocity_def Math_random_def Let_def)

lemma ConjugateBase_new_next_ref: "next_ref (snd (ConjugateBase_new H cls x y w)) = next_ref w"
  by (simp add: ConjugateBase_new_def Particle_new_def createSprite_next_ref split_beta Let_def)

lemma new_particle_ref:
  "fst (new_particle H cls x y w) = next_ref w \<and>
   next_ref (snd (new_particle H cls x y w)) = Suc (next_ref w)"
  by (cases "ctor cls")
     (simp_all add: new_particle_def Particle_new_def Proton_new_def WeakConjugateBase_new_def
        StrongConjugateBase_new_def createSprite_next_ref ConjugateBase_new_next_ref
        split_beta Let_def)

lemma beaker_wf_addParticle:
  assumes wf: "beaker_wf bk w" and g: "particles bk k = Some g" and n: "next_ref w \<le> r"
    and n': "r < next_ref w'"
  shows "addParticle k r bk =
           Inr (bk\<lparr>particles := (particles bk)(k \<mapsto> g @ [r]),
                  all_particle_sprites := Group_add r (all_particle_sprites bk)\<rparr>)"
    and "beaker_wf (bk\<lparr>particles := (particles bk)(k \<mapsto> g @ [r]),
                  all_particle_sprites := Group_add r (all_particle_sprites bk)\<rparr>) w'"
proof -
  have fresh: "r \<notin> set h" if "particles bk k' = Some h" for k' h
    using wf that n unfolding beaker_wf_def by fastforce
  show "addParticle k r bk =
           Inr (bk\<lparr>particles := (particles bk)(k \<mapsto> g @ [r]),
                  all_particle_sprites := Group_add r (all_particle_sprites bk)\<rparr>)"
    using g fresh[OF g] by (simp add: addParticle_def Group_add_def)
  have less: "s < next_ref w'" if "particles bk k' = Some h" "s \<in> set h" for k' h s
  proof -
    from wf that have "s < next_ref w" unfolding beaker_wf_def by blast
    with n n' show ?thesis by simp
  qed
  have dist: "distinct h" if "particles bk k' = Some h" for k' h
    using wf that unfolding beaker_wf_def by blast
  have disj: "set h \<inter> set h' = {}"
    if "k1 \<noteq> k2" "particles bk k1 = Some h" "particles bk k2 = Some h'" for k1 k2 h h'
    using wf that unfolding beaker_wf_def by blast
  show "beaker_wf (bk\<lparr>particles := (particles bk)(k \<mapsto> g @ [r]),
                  all_particle_sprites := Group_add r (all_particle_sprites bk)\<rparr>) w'"
    unfolding beaker_wf_def
  proof (intro conjI allI impI ballI)
    fix k' h assume h: "particles (bk\<lparr>particles := (particles bk)(k \<mapsto> g @ [r]),
        all_particle_sprites := Group_add r (all_particle_sprites bk)\<rparr>) k' = Some h"
    show "distinct h" using h dist[OF g] dist fresh[OF g] by (auto split: if_splits)
    fix s assume "s \<in> set h"
    then show "s < next_ref w'" using h less[OF g] less n' by (auto split: if_splits)
  next
    fix k1 k2 h h'
    assume "k1 \<noteq> k2"
      and "particles (bk\<lparr>particles := (particles bk)(k \<mapsto> g @ [r]),
        all_particle_sprites := Group_add r (all_particle_sprites bk)\<rparr>) k1 = Some h"
      and "particles (bk\<lparr>particles := (particles bk)(k \<mapsto> g @ [r]),
        all_particle_sprites := Group_add r (all_particle_sprites bk)\<rparr>) k2 = Some h'"
    then consider "k1 = k" "k2 \<noteq> k" "h = g @ [r]" "particles bk k2 = Some h'"
      | "k2 = k" "k1 \<noteq> k" "h' = g @ [r]" "particles bk k1 = Some h"
      | "k1 \<noteq> k" "k2 \<noteq> k" "particles bk k1 = Some h" "particles bk k2 = Some h'"
      by (auto split: if_splits)
    then show "set h \<inter> set h' = {}"
    proof cases
      case 1
      with disj[of k k2 g h'] g fresh[of k2 h'] show ?thesis by auto
    next
      case 2
      with disj[of k1 k h g] g fresh[of k1 h] show ?thesis by auto
    next
      case 3
      with disj[of k1 k2 h h'] \<open>k1 \<noteq> k2\<close> show ?thesis by simp
    qed
  qed
qed

lemma addParticles_loop_wf:
  assumes "addParticles_loop H cls k n bk w = Inr (bk', w')" "beaker_wf bk w"
    "particles bk k = Some g"
  shows "beaker_wf bk' w' \<and> (\<forall>k'. k' \<noteq> k \<longrightarrow> particles bk' k' = particles bk k') \<and>
         (\<exists>new. particles bk' k = Some (g @ new))"
  using assms
proof (induction n arbitrary: bk w g)
  case 0
  then show ?case by simp
next
  case (Suc n)
  obtain loc w1 where rp: "randomPoint H bk (collider_radius cls) w = (loc, w1)"
    by (cases "randomPoint H bk (collider_radius cls) w")
  then have w1: "next_ref w1 = next_ref w" using randomPoint_next_ref[of H bk "collider_radius cls" w] by simp
  then have wf1: "beaker_wf bk w1" using Suc.prems(2) by (simp add: beaker_wf_def)
  show ?case
  proof (cases loc)
    case None
    with Suc.prems(1) rp have "addParticles_loop H cls k n bk w1 = Inr (bk', w')" by simp
    from Suc.IH[OF this wf1 Suc.prems(3)] show ?thesis .
  next
    case (Some xy)
    obtain lx ly where xy: "xy = (lx, ly)" by (cases xy)
    obtain r w2 where np: "new_particle H cls lx ly w1 = (r, w2)"
      by (cases "new_particle H cls lx ly w1")
    then have r: "r = next_ref w" "next_ref w2 = Suc (next_ref w)"
      using new_particle_ref[of H cls lx ly w1] w1 by simp_all
    let ?bk = "bk\<lparr>particles := (particles bk)(k \<mapsto> g @ [r]),
                  all_particle_sprites := Group_add r (all_particle_sprites bk)\<rparr>"
    have ad: "addParticle k r bk = Inr ?bk" and wf2: "beaker_wf ?bk w2"
      using beaker_wf_addParticle[OF Suc.prems(2,3), of r w2] r by simp_all
    from Suc.prems(1) rp Some xy np ad
    have "addParticles_loop H cls k n ?bk w2 = Inr (bk', w')" by simp
    from Suc.IH[OF this wf2, of "g @ [r]"] show ?thesis by auto
  qed
qed

lemma beaker_wf_initParticleGroup: "beaker_wf bk w \<Longrightarrow> beaker_wf (initParticleGroup k bk) w"
  unfolding beaker_wf_def initParticleGroup_def
  by (auto split: option.splits if_splits)

lemma beaker_wf_new: "beaker_wf (Beaker sw sh x y sx sy) w"
  by (simp add: beaker_wf_def Beaker_def Let_def)

lemma add_two_mangled:
  "\<exists>bk' w'. addParticles host0 (WeakConjugateBase_class ''e'') 2
        (Beaker 100 100 0 0 None None) new_world = Inr (bk', w') \<and>
      particles bk' ''WeakConjugateBase'' = Some [0, 1] \<and> particles bk' ''e'' = None"
  by (simp add: beaker_defs eval_nat_numeral host0_def ctor_defs)

text \<open>
  C9. \<open>addParticles\<close> registers the class's group under \<open>particle_class.prototype.name\<close>
  and \<open>removeParticles\<close> looks the group up under \<open>particle_class.name\<close>. For a class
  whose two names differ, in a well-formed beaker: \<open>addParticles\<close> appends the new sprites
  to the group of the prototype name and leaves the group of the static name as it was;
  \<open>removeParticles\<close> then throws when the static name has no group, and when it returns
  it has left the group that \<open>addParticles\<close> populated unchanged.
\<close>

theorem C9_remove_misses_added_group:
  assumes diff: "name cls \<noteq> property_key (prototype_name cls)"
    and wf: "beaker_wf bk w"
    and add: "addParticles H cls quantity bk w = Inr (bk', w')"
  shows "(\<exists>new. particles bk' (property_key (prototype_name cls)) =
            Some ((case particles bk (property_key (prototype_name cls)) of
                     None \<Rightarrow> [] | Some g \<Rightarrow> g) @ new)) \<and>
         particles bk' (name cls) = particles bk (name cls) \<and>
         (particles bk (name cls) = None \<longrightarrow> removeParticles cls q bk' = Inl TypeError) \<and>
         (\<forall>bk''. removeParticles cls q bk' = Inr bk'' \<longrightarrow>
            particles bk'' (property_key (prototype_name cls)) =
              particles bk' (property_key (prototype_name cls)))"
proof -
  let ?k = "property_key (prototype_name cls)"
  let ?g = "case particles bk ?k of None \<Rightarrow> [] | Some g \<Rightarrow> g"
  let ?bk0 = "initParticleGroup ?k bk"
  have g0: "particles ?bk0 ?k = Some ?g"
    by (simp add: initParticleGroup_def split: option.splits)
  have other0: "particles ?bk0 k' = particles bk k'" if "k' \<noteq> ?k" for k'
    using that by (simp add: initParticleGroup_def split: option.splits)
  from add have loop: "addParticles_loop H cls ?k quantity ?bk0 w = Inr (bk', w')"
    by (simp add: addParticles_def Let_def)
  from addParticles_loop_wf[OF loop beaker_wf_initParticleGroup[OF wf] g0]
  have wf': "beaker_wf bk' w'"
    and other: "\<And>k'. k' \<noteq> ?k \<Longrightarrow> particles bk' k' = particles ?bk0 k'"
    and new: "\<exists>new. particles bk' ?k = Some (?g @ new)" by auto
  have same: "particles bk' (name cls) = particles bk (name cls)"
    using other[OF diff] other0[OF diff] by simp
  have none: "removeParticles cls q bk' = Inl TypeError" if "particles bk (name cls) = None"
    using that same by (simp add: removeParticles_def)
  have keep: "particles bk'' ?k = particles bk' ?k" if rm: "removeParticles cls q bk' = Inr bk''" for bk''
  proof -
    from rm obtain h where h: "particles bk' (name cls) = Some h"
      by (auto simp: removeParticles_def Let_def split: option.splits)
    from new obtain a where a: "particles bk' ?k = Some a" by auto
    from wf' h a diff have dist: "distinct h" and disj: "set h \<inter> set a = {}"
      unfolding beaker_wf_def by blast+
    let ?m = "if length h < q then length h else q"
    have "removeParticles cls q bk' = removeParticles_loop (name cls) ?m bk'"
      using h by (simp add: removeParticles_def Let_def)
    also have "\<dots> = Inr (fold Particle_remove (rev (take ?m h)) bk')"
      by (rule removeParticles_loop_fold[OF h dist]) simp
    finally have "bk'' = fold Particle_remove (rev (take ?m h)) bk'" using rm by simp
    moreover have "filter (\<lambda>s. s \<notin> set (take ?m h)) a = a"
      using disj by (auto simp: filter_id_conv dest: in_set_takeD)
    ultimately show ?thesis using a by (simp add: fold_Particle_remove)
  qed
  show ?thesis using new same none keep by blast
qed
theorem C9_remove_misses_added_group_witness:
  "name (WeakConjugateBase_class ''e'') \<noteq>
     property_key (prototype_name (WeakConjugateBase_class ''e'')) \<and>
   beaker_wf (Beaker 100 100 0 0 None None) new_world \<and>
   (\<exists>bk' w'. addParticles host0 (WeakConjugateBase_class ''e'') 2
        (Beaker 100 100 0 0 None None) new_world = Inr (bk', w') \<and>
      particles bk' ''WeakConjugateBase'' = Some [0, 1] \<and>
      removeParticles (WeakConjugateBase_class ''e'') 1 bk' = Inl TypeError)"
proof -
  let ?cls = "WeakConjugateBase_class ''e''"
  let ?B = "Beaker 100 100 0 0 None None"
  have diff: "name ?cls \<noteq> property_key (prototype_name ?cls)"
    by (simp add: WeakConjugateBase_class_def ConjugateBase_class_def property_key_def)
  have wf: "beaker_wf ?B new_world" by (rule beaker_wf_new)
  from add_two_mangled obtain bk' w' where
    add: "addParticles host0 ?cls 2 ?B new_world = Inr (bk', w')"
    and grp: "particles bk' ''WeakConjugateBase'' = Some [0, 1]" by blast
  have none: "particles ?B (name ?cls) = None" by (simp add: Beaker_def)
  from C9_remove_misses_added_group[OF diff wf add, of 1] none
  have "removeParticles ?cls 1 bk' = Inl TypeError" by blast
  with diff wf add grp show ?thesis by blast
qed

section \<open>Bond symmetry\<close>

text \<open>
  When the handler returns, either nothing changed or both reference fields were set
  together; when \<open>update\<close> returns, either no reference field changed or both were
  cleared together.
\<close>

lemma reacts_with_Proton_cases:
  assumes "reacts_with_Proton H b p w = Inr w'"
  shows "w' = w \<or>
         (b \<noteq> p \<and> proton_of w b = None \<and> base_of w p = None \<and> is_Proton w p \<and>
          is_ConjugateBase w b \<and>
          proton_of w' = (proton_of w)(b := Some p) \<and> base_of w' = (base_of w)(p := Some b))"
proof (cases "w' = w")
  case True
  then show ?thesis by simp
next
  case False
  with assms obtain pp bp pr where
    pp: "heap w p = Some pp" "own_fields pp = Proton_fields None" and
    bp: "heap w b = Some bp" "own_fields bp = ConjugateBase_fields pr" "particle pr = None"
    by (auto simp: reacts_with_Proton_def split: option.splits instance_fields.splits if_splits)
  from pp bp have ne: "b \<noteq> p" by auto
  from reacts_with_Proton_bond[OF pp bp, of H] assms
  have w': "heap w' = (heap w)(b \<mapsto> bp\<lparr>own_fields := ConjugateBase_fields (pr
             \<lparr>release_after := Some (clock H (clock_reads w) + fst (release_after_range pr)
                   + snd (release_after_range pr) * random_source H (random_draws w)),
              particle := Some p,
              restore_depth := depth (sprite pp)\<rparr>)\<rparr>,
            p \<mapsto> pp\<lparr>own_fields := Proton_fields (Some b),
                     sprite := (sprite pp)\<lparr>depth := Some (to_number (depth (sprite bp)) + 1/2)\<rparr>\<rparr>)"
    by auto
  have 1: "proton_of w' = (proton_of w)(b := Some p)"
    using ne pp bp by (auto simp: fun_eq_iff proton_of_def w')
  have 2: "base_of w' = (base_of w)(p := Some b)"
    using ne pp bp by (auto simp: fun_eq_iff base_of_def w')
  show ?thesis using ne pp bp 1 2
    by (simp add: proton_of_def base_of_def is_Proton_def is_ConjugateBase_def)
qed

lemma reacts_with_Proton_symmetric:
  assumes "bond_symmetric w" "reacts_with_Proton H b p w = Inr w'"
  shows "bond_symmetric w'"
  using reacts_with_Proton_cases[OF assms(2)]
proof
  assume "w' = w" with assms(1) show ?thesis by simp
next
  assume a: "b \<noteq> p \<and> proton_of w b = None \<and> base_of w p = None \<and> is_Proton w p \<and>
          is_ConjugateBase w b \<and>
          proton_of w' = (proton_of w)(b := Some p) \<and> base_of w' = (base_of w)(p := Some b)"
  from a assms(1) have nb: "\<And>q. base_of w q \<noteq> Some b" and np: "\<And>c. proton_of w c \<noteq> Some p"
    unfolding bond_symmetric_def by (metis option.distinct(1))+
  show ?thesis
    unfolding bond_symmetric_def using a assms(1) nb np
    by (auto simp: bond_symmetric_def)
qed

lemma ConjugateBase_update_cases:
  assumes "ConjugateBase_update H b w = Inr w'"
  shows "(proton_of w' = proton_of w \<and> base_of w' = base_of w) \<or>
         (\<exists>q. proton_of w b = Some q \<and> is_Proton w q \<and>
              proton_of w' = (proton_of w)(b := None) \<and> base_of w' = (base_of w)(q := None))"
proof -
  from assms obtain self pr where
    self: "heap w b = Some self" "own_fields self = ConjugateBase_fields pr"
    by (auto simp: ConjugateBase_update_def split: option.splits instance_fields.splits)
  show ?thesis
  proof (cases "release_after pr")
    case None
    with assms self show ?thesis by (simp add: ConjugateBase_update_def)
  next
    case (Some ra)
    let ?now = "clock H (clock_reads w)"
    consider "ra = 0" | "ra \<noteq> 0" "?now < ra"
      | "ra \<noteq> 0" "\<not> ?now < ra" "?now < ra + post_release_duration pr"
      | "ra \<noteq> 0" "\<not> ?now < ra" "\<not> ?now < ra + post_release_duration pr" by blast
    then show ?thesis
    proof cases
      case 1
      with assms self Some show ?thesis by (simp add: ConjugateBase_update_def)
    next
      case 2
      with assms self Some obtain q qp where q: "particle pr = Some q" "heap w q = Some qp"
        by (auto simp: ConjugateBase_update_def Date_now_def split: option.splits)
      from ConjugateBase_update_bonded[OF self Some 2(1) q 2(2)] assms
      have w': "heap w' = (heap w)(q \<mapsto> qp\<lparr>sprite := (sprite qp)
            \<lparr>position_x := position_x (sprite self) + offset_x pr,
             position_y := position_y (sprite self) + offset_y pr\<rparr>\<rparr>)" by auto
      have "proton_of w' = proton_of w" "base_of w' = base_of w"
        using q by (auto simp: fun_eq_iff proton_of_def base_of_def w')
      then show ?thesis by simp
    next
      case 3
      with assms self Some have "heap w' = heap w"
        by (auto simp: ConjugateBase_update_def Date_now_def)
      then have "proton_of w' = proton_of w" "base_of w' = base_of w"
        by (auto simp: fun_eq_iff proton_of_def base_of_def)
      then show ?thesis by simp
    next
      case 4
      with assms self Some obtain q qp qb where
        q: "particle pr = Some q" "heap w q = Some qp" "own_fields qp = Proton_fields qb"
        and w': "heap w' = (heap w)
            (q \<mapsto> qp\<lparr>sprite := (sprite qp)\<lparr>depth := restore_depth pr\<rparr>,
                     own_fields := Proton_fields None\<rparr>,
             b \<mapsto> self\<lparr>own_fields := ConjugateBase_fields
                     (pr\<lparr>restore_depth := None, release_after := None, particle := None\<rparr>)\<rparr>)"
        by (auto simp: ConjugateBase_update_def Date_now_def
            split: option.splits instance_fields.splits)
      from q self have ne: "q \<noteq> b" by auto
      have "proton_of w' = (proton_of w)(b := None)" "base_of w' = (base_of w)(q := None)"
        using q self ne by (auto simp: fun_eq_iff proton_of_def base_of_def w')
      moreover have "proton_of w b = Some q" "is_Proton w q"
        using q self by (simp_all add: proton_of_def is_Proton_def)
      ultimately show ?thesis by blast
    qed
  qed
qed

lemma ConjugateBase_update_symmetric:
  assumes "bond_symmetric w" "ConjugateBase_update H b w = Inr w'"
  shows "bond_symmetric w'"
  using ConjugateBase_update_cases[OF assms(2)]
proof (elim disjE exE conjE)
  assume "proton_of w' = proton_of w" "base_of w' = base_of w"
  with assms(1) show ?thesis by (simp add: bond_symmetric_def)
next
  fix q
  assume a: "proton_of w b = Some q" "is_Proton w q"
    "proton_of w' = (proton_of w)(b := None)" "base_of w' = (base_of w)(q := None)"
  from a(1) assms(1) have qb: "base_of w q = Some b" by (simp add: bond_symmetric_def)
  show ?thesis
    unfolding bond_symmetric_def
  proof (intro allI)
    fix c p
    show "(proton_of w' c = Some p) = (base_of w' p = Some c)"
      using a qb assms(1)[unfolded bond_symmetric_def, rule_format, of c p]
        assms(1)[unfolded bond_symmetric_def, rule_format, of b p]
        assms(1)[unfolded bond_symmetric_def, rule_format, of c q]
      by (auto split: if_splits)
  qed
qed

lemma update_symmetric:
  assumes "bond_symmetric w" "update H b w = Inr w'"
  shows "bond_symmetric w'"
  using assms ConjugateBase_update_symmetric[of w H b w']
  by (auto simp: update_def split: option.splits instance_fields.splits)


lemma update_cases:
  assumes "update H b w = Inr w'"
  shows "(proton_of w' = proton_of w \<and> base_of w' = base_of w) \<or>
         (\<exists>q. proton_of w b = Some q \<and> is_Proton w q \<and>
              proton_of w' = (proton_of w)(b := None) \<and> base_of w' = (base_of w)(q := None))"
proof (cases "is_ConjugateBase w b")
  case True
  with assms have "ConjugateBase_update H b w = Inr w'"
    by (auto simp: update_def is_ConjugateBase_def split: option.splits instance_fields.splits)
  then show ?thesis by (rule ConjugateBase_update_cases)
next
  case False
  with assms have "w' = w"
    by (auto simp: update_def is_ConjugateBase_def split: option.splits instance_fields.splits)
  then show ?thesis by simp
qed

text \<open>
  A property of the world that a change of a sprite, the reaction handler and \<open>update\<close>
  each keep is kept by the collision resolution and by the loop of a step.
\<close>

lemma sprite_overlap_invariant:
  assumes "\<And>a c v v'. P v \<Longrightarrow> f H a c v = Inr v' \<Longrightarrow> P v'"
    and "P w" and "sprite_overlap H f s ts w = Inr w'"
  shows "P w'"
  using assms(2,3)
proof (induction ts arbitrary: w)
  case Nil
  then show ?case by simp
next
  case (Cons t ts)
  show ?case
  proof (cases "case (heap w s, heap w t) of
           (Some a, Some b) \<Rightarrow> overlap_test H (sprite a) (sprite b) | _ \<Rightarrow> False")
    case True
    with Cons.prems(2) obtain v where v: "f H s t w = Inr v" "sprite_overlap H f s ts v = Inr w'"
      by (auto split: sum.splits)
    from assms(1)[OF Cons.prems(1) v(1)] have "P v" .
    from Cons.IH[OF this v(2)] show ?thesis .
  next
    case False
    with Cons.prems(2) have "sprite_overlap H f s ts w = Inr w'" by simp
    from Cons.IH[OF Cons.prems(1) this] show ?thesis .
  qed
qed

lemma sprite_resolve_collisions_invariant:
  assumes "\<And>k f a c v v'. (k, f) \<in> set table \<Longrightarrow> P v \<Longrightarrow> f H a c v = Inr v' \<Longrightarrow> P v'"
    and "P w" and "sprite_resolve_collisions H bk s table w = Inr w'"
  shows "P w'"
  using assms
proof (induction table arbitrary: w)
  case Nil
  then show ?case by simp
next
  case (Cons kf table)
  obtain k f where kf: "kf = (k, f)" by (cases kf)
  have rest: "P v'" if "(k, f) \<in> set table" "P v" "f H a c v = Inr v'" for k f a c v v'
    using Cons.prems(1)[of k f v a c v'] that by simp
  show ?case
  proof (cases "particles bk k")
    case None
    with Cons.prems(3) kf have "sprite_resolve_collisions H bk s table w = Inr w'" by simp
    from Cons.IH[OF rest Cons.prems(2) this] show ?thesis .
  next
    case (Some g)
    with Cons.prems(3) kf obtain v where
      v: "sprite_overlap H f s g w = Inr v" "sprite_resolve_collisions H bk s table v = Inr w'"
      by (auto split: sum.splits)
    have "P v"
    proof (rule sprite_overlap_invariant[where P = P, OF _ Cons.prems(2) v(1)])
      fix a c u u' assume "P u" "f H a c u = Inr u'"
      then show "P u'" using Cons.prems(1)[of k f u a c u'] kf by simp
    qed
    from Cons.IH[OF rest this v(2)] show ?thesis .
  qed
qed

lemma update_particles_loop_invariant:
  assumes frame: "\<And>v j obj s. P v \<Longrightarrow> heap v j = Some obj \<Longrightarrow>
                    P (v\<lparr>heap := (heap v)(j \<mapsto> obj\<lparr>sprite := s\<rparr>)\<rparr>)"
    and react: "\<And>a c v v'. P v \<Longrightarrow> reacts_with_Proton H a c v = Inr v' \<Longrightarrow> P v'"
    and upd: "\<And>b v v'. P v \<Longrightarrow> update H b v = Inr v' \<Longrightarrow> P v'"
    and "P w" and "update_particles_loop H bk js w = Inr w'"
  shows "P w'"
  using assms(4,5)
proof (induction js arbitrary: w)
  case Nil
  then show ?case by simp
next
  case (Cons j js)
  from Cons.prems(2) obtain obj where obj: "heap w j = Some obj" by (auto split: option.splits)
  let ?w1 = "w\<lparr>heap := (heap w)(j \<mapsto> obj\<lparr>sprite :=
                     sprite_boundary_update H (sprite obj)
                       (solution_x (solution bk)) (solution_y (solution bk))
                       (solution_max_x (solution bk)) (solution_max_y (solution bk))\<rparr>)\<rparr>"
  from Cons.prems(2) obj obtain w2 w3 where
    w2: "sprite_resolve_collisions H bk j (reacts_with obj) ?w1 = Inr w2" and
    w3: "update H j w2 = Inr w3" and
    rest: "update_particles_loop H bk js w3 = Inr w'"
    by (auto simp: Let_def split: sum.splits)
  have table: "P v'" if "(k, f) \<in> set (reacts_with obj)" "P v" "f H a c v = Inr v'"
    for k f a c v v'
    using that react by (auto simp: reacts_with_def split: instance_fields.splits)
  have w1: "P ?w1" by (rule frame[OF Cons.prems(1) obj])
  have "P w2"
  proof (rule sprite_resolve_collisions_invariant[where P = P, OF _ w1 w2])
    fix k f a c v v'
    assume "(k, f) \<in> set (reacts_with obj)" "P v" "f H a c v = Inr v'"
    then show "P v'" by (rule table)
  qed
  then have "P w3" by (rule upd[OF _ w3])
  from Cons.IH[OF this rest] show ?case .
qed

lemma set_sprite_frame:
  assumes "heap w j = Some obj"
  shows "proton_of (w\<lparr>heap := (heap w)(j \<mapsto> obj\<lparr>sprite := s\<rparr>)\<rparr>) = proton_of w"
    and "base_of (w\<lparr>heap := (heap w)(j \<mapsto> obj\<lparr>sprite := s\<rparr>)\<rparr>) = base_of w"
    and "bond_of (w\<lparr>heap := (heap w)(j \<mapsto> obj\<lparr>sprite := s\<rparr>)\<rparr>) = bond_of w"
    and "is_Proton (w\<lparr>heap := (heap w)(j \<mapsto> obj\<lparr>sprite := s\<rparr>)\<rparr>) = is_Proton w"
    and "is_ConjugateBase (w\<lparr>heap := (heap w)(j \<mapsto> obj\<lparr>sprite := s\<rparr>)\<rparr>) = is_ConjugateBase w"
  using assms
  by (auto simp: fun_eq_iff proton_of_def base_of_def bond_of_def is_Proton_def is_ConjugateBase_def)

lemma update_particles_loop_symmetric:
  assumes "bond_symmetric w" "update_particles_loop H bk js w = Inr w'"
  shows "bond_symmetric w'"
proof (rule update_particles_loop_invariant[where P = bond_symmetric, OF _ _ _ assms])
  fix v j obj s assume "bond_symmetric v" "heap v j = Some obj"
  then show "bond_symmetric (v\<lparr>heap := (heap v)(j \<mapsto> obj\<lparr>sprite := s\<rparr>)\<rparr>)"
    using set_sprite_frame(1,2)[of v j obj s] by (simp add: bond_symmetric_def)
next
  fix a c v v' assume "bond_symmetric v" "reacts_with_Proton H a c v = Inr v'"
  then show "bond_symmetric v'" by (rule reacts_with_Proton_symmetric)
next
  fix b v v' assume "bond_symmetric v" "update H b v = Inr v'"
  then show "bond_symmetric v'" by (rule update_symmetric)
qed

text \<open>
  C4. Bond references are symmetric wherever an operation returns: from a world in which
  \<open>base.proton.particle == P\<close> holds exactly when \<open>P.base.particle == base\<close>, the reaction
  handler, \<open>update\<close> and \<open>Beaker.step\<close> return a world in which it holds again; the
  handler sets both reference fields together or none, \<open>update\<close> clears both together or
  none; and in such a world no two bases reference the same proton.
\<close>

theorem C4_bond_symmetry:
  assumes "bond_symmetric w"
  shows "(\<forall>w'. reacts_with_Proton H b p w = Inr w' \<longrightarrow>
            bond_symmetric w' \<and>
            (w' = w \<or> proton_of w' = (proton_of w)(b := Some p) \<and>
                       base_of w' = (base_of w)(p := Some b))) \<and>
         (\<forall>w'. update H b w = Inr w' \<longrightarrow>
            bond_symmetric w' \<and>
            (proton_of w' = proton_of w \<and> base_of w' = base_of w \<or>
             (\<exists>q. proton_of w b = Some q \<and> proton_of w' = (proton_of w)(b := None) \<and>
                  base_of w' = (base_of w)(q := None)))) \<and>
         (\<forall>w'. step H bk w = Inr w' \<longrightarrow> bond_symmetric w') \<and>
         (\<forall>b1 b2 q. proton_of w b1 = Some q \<longrightarrow> proton_of w b2 = Some q \<longrightarrow> b1 = b2)"
proof (intro conjI allI impI)
  fix w' assume r: "reacts_with_Proton H b p w = Inr w'"
  show "bond_symmetric w'" by (rule reacts_with_Proton_symmetric[OF assms r])
  show "w' = w \<or> proton_of w' = (proton_of w)(b := Some p) \<and>
                       base_of w' = (base_of w)(p := Some b)"
    using reacts_with_Proton_cases[OF r] by blast
next
  fix w' assume u: "update H b w = Inr w'"
  show "bond_symmetric w'" by (rule update_symmetric[OF assms u])
  show "proton_of w' = proton_of w \<and> base_of w' = base_of w \<or>
             (\<exists>q. proton_of w b = Some q \<and> proton_of w' = (proton_of w)(b := None) \<and>
                  base_of w' = (base_of w)(q := None))"
    using update_cases[OF u] by blast
next
  fix w' assume "step H bk w = Inr w'"
  then show "bond_symmetric w'"
    using update_particles_loop_symmetric[OF assms] by (simp add: step_def update_particles_def)
next
  fix b1 b2 q assume "proton_of w b1 = Some q" "proton_of w b2 = Some q"
  with assms have "base_of w q = Some b1" "base_of w q = Some b2"
    by (simp_all add: bond_symmetric_def)
  then show "b1 = b2" by simp
qed

text \<open>
  One full cycle on the pair: a step bonds the two, a later \<open>update\<close> releases them.
\<close>

lemma step_pair: "step host0 beaker_pair world_pair = Inr world_after_step"
  by (simp add: step_def update_particles_def beaker_pair_def world_pair_def world_after_step_def
      sprite_boundary_update_def host0_def fixed_host_def circle_overlapPoint_def
      circle_overlap_def reacts_with_def reacts_with_Proton_def Date_now_def Math_random_def
      to_number_def update_def ConjugateBase_update_def)

lemma pair_proton_slaved:
  "map_option (\<lambda>s. (position_x s, position_y s)) (sprite_of world_after_step 1) = Some (60, 40)"
  by (simp add: sprite_of_def world_after_step_def)

lemma update_release_pair:
  "update (fixed_host 2750 0) 0 world_after_step = Inr world_released"
  by (simp add: world_after_step_def world_released_def fixed_host_def
      Date_now_def update_def ConjugateBase_update_def; rule ext; simp)

lemma bond_symmetric_world_pair: "bond_symmetric world_pair"
  by (simp add: bond_symmetric_def proton_of_def base_of_def world_pair_def)

theorem C4_bond_symmetry_witness:
  "bond_symmetric world_pair \<and>
   step host0 beaker_pair world_pair = Inr world_after_step \<and>
   bond_symmetric world_after_step \<and>
   proton_of world_after_step 0 = Some 1 \<and> base_of world_after_step 1 = Some 0 \<and>
   update (fixed_host 2750 0) 0 world_after_step = Inr world_released \<and>
   bond_symmetric world_released \<and>
   proton_of world_released 0 = None \<and> base_of world_released 1 = None"
proof -
  note s0 = bond_symmetric_world_pair
  from C4_bond_symmetry[OF s0, of host0 0 1 beaker_pair] step_pair
  have s1: "bond_symmetric world_after_step" by blast
  from C4_bond_symmetry[OF s1, of "fixed_host 2750 0" 0 1 beaker_pair] update_release_pair
  have s2: "bond_symmetric world_released" by blast
  have "proton_of world_after_step 0 = Some 1" "base_of world_after_step 1 = Some 0"
    "proton_of world_released 0 = None" "base_of world_released 1 = None"
    by (simp_all add: proton_of_def base_of_def world_after_step_def world_released_def)
  with s0 s1 s2 step_pair update_release_pair show ?thesis by simp
qed

section \<open>Collision resolution without a target group\<close>

lemma two_bases_added:
  "addParticles host0 (WeakConjugateBase_class ''WeakConjugateBase'') 2
     (Beaker 100 100 0 0 None None) new_world = Inr (beaker_two_bases, world_two_bases)"
  by (simp add: beaker_defs eval_nat_numeral beaker_two_bases_def world_two_bases_def host0_def
      ctor_defs)

lemma sprite_resolve_collisions_filter:
  "sprite_resolve_collisions H bk s table w =
   sprite_resolve_collisions H bk s (filter (\<lambda>kf. particles bk (fst kf) \<noteq> None) table) w"
proof (induction table arbitrary: w)
  case Nil
  show ?case by simp
next
  case (Cons kf table)
  obtain k f where kf: "kf = (k, f)" by (cases kf)
  show ?case
  proof (cases "particles bk k")
    case None
    then show ?thesis using Cons.IH kf by simp
  next
    case (Some g)
    then show ?thesis using Cons.IH kf by (auto split: sum.splits)
  qed
qed

lemma sprite_resolve_collisions_skip:
  assumes "\<forall>k \<in> fst ` set table. particles bk k = None"
  shows "sprite_resolve_collisions H bk s table w = Inr w"
proof -
  from assms have "filter (\<lambda>kf. particles bk (fst kf) \<noteq> None) table = []"
    by (auto simp: filter_empty_conv)
  then show ?thesis using sprite_resolve_collisions_filter[of H bk s table w] by simp
qed

lemma sprite_change_frame:
  assumes "heap w' = (heap w)(j \<mapsto> obj\<lparr>sprite := s\<rparr>)" "heap w j = Some obj"
  shows "bond_of w' = bond_of w" "is_Proton w' = is_Proton w"
    "is_ConjugateBase w' = is_ConjugateBase w"
  using assms
  by (auto simp: fun_eq_iff bond_of_def is_Proton_def is_ConjugateBase_def)

lemma same_heap_frame:
  assumes "heap w' = heap w"
  shows "bond_of w' = bond_of w" "is_Proton w' = is_Proton w"
    "is_ConjugateBase w' = is_ConjugateBase w"
  using assms
  by (auto simp: fun_eq_iff bond_of_def is_Proton_def is_ConjugateBase_def)

lemma bonds_valid_frame:
  assumes "bonds_valid w" "bond_of w' = bond_of w" "is_Proton w' = is_Proton w"
  shows "bonds_valid w'"
  using assms by (simp add: bonds_valid_def)

lemma ConjugateBase_update_returns:
  assumes v: "bonds_valid w" and b: "is_ConjugateBase w b"
  shows "\<exists>w'. ConjugateBase_update H b w = Inr w' \<and> bonds_valid w' \<and>
              is_ConjugateBase w' = is_ConjugateBase w"
proof -
  from b obtain self pr where
    self: "heap w b = Some self" "own_fields self = ConjugateBase_fields pr"
    by (auto simp: is_ConjugateBase_def split: option.splits instance_fields.splits)
  then have bond: "bond_of w b = Some pr" by (simp add: bond_of_def)
  show ?thesis
  proof (cases "release_after pr")
    case None
    from ConjugateBase_update_free[OF bond None, of H] v show ?thesis by simp
  next
    case (Some ra)
    let ?now = "clock H (clock_reads w)"
    show ?thesis
    proof (cases "ra = 0")
      case True
      with self Some have "ConjugateBase_update H b w = Inr w"
        by (simp add: ConjugateBase_update_def)
      with v show ?thesis by simp
    next
      case False
      with v bond Some obtain q where q: "particle pr = Some q" "is_Proton w q"
        unfolding bonds_valid_def by blast
      then obtain qp qb where qp: "heap w q = Some qp" "own_fields qp = Proton_fields qb"
        by (auto simp: is_Proton_def split: option.splits instance_fields.splits)
      consider "?now < ra" | "\<not> ?now < ra" "?now < ra + post_release_duration pr"
        | "\<not> ?now < ra" "\<not> ?now < ra + post_release_duration pr" by blast
      then show ?thesis
      proof cases
        case 1
        let ?w' = "w\<lparr>clock_reads := Suc (clock_reads w),
          heap := (heap w)(q \<mapsto> qp\<lparr>sprite := (sprite qp)
            \<lparr>position_x := position_x (sprite self) + offset_x pr,
             position_y := position_y (sprite self) + offset_y pr\<rparr>\<rparr>)\<rparr>"
        have r: "ConjugateBase_update H b w = Inr ?w'"
          by (rule ConjugateBase_update_bonded[OF self Some False q(1) qp(1) 1])
        have "bond_of ?w' = bond_of w" "is_Proton ?w' = is_Proton w"
          "is_ConjugateBase ?w' = is_ConjugateBase w"
          by (rule sprite_change_frame[OF _ qp(1)], simp)+
        with r v show ?thesis by (auto intro: bonds_valid_frame)
      next
        case 2
        let ?w' = "w\<lparr>clock_reads := Suc (clock_reads w)\<rparr>"
        have r: "ConjugateBase_update H b w = Inr ?w'"
          using self Some False 2 by (simp add: ConjugateBase_update_def Date_now_def)
        have "bond_of ?w' = bond_of w" "is_Proton ?w' = is_Proton w"
          "is_ConjugateBase ?w' = is_ConjugateBase w"
          by (rule same_heap_frame, simp)+
        with r v show ?thesis by (auto intro: bonds_valid_frame)
      next
        case 3
        let ?w' = "w\<lparr>clock_reads := Suc (clock_reads w),
          heap := (heap w)
            (q \<mapsto> qp\<lparr>sprite := (sprite qp)\<lparr>depth := restore_depth pr\<rparr>,
                     own_fields := Proton_fields None\<rparr>,
             b \<mapsto> self\<lparr>own_fields := ConjugateBase_fields
                     (pr\<lparr>restore_depth := None, release_after := None, particle := None\<rparr>)\<rparr>)\<rparr>"
        have r: "ConjugateBase_update H b w = Inr ?w'"
          using self Some False q(1) qp 3 by (simp add: ConjugateBase_update_def Date_now_def)
        from self qp have ne: "q \<noteq> b" by auto
        have bo: "bond_of ?w' = (bond_of w)
            (b \<mapsto> pr\<lparr>restore_depth := None, release_after := None, particle := None\<rparr>)"
          using self qp ne by (auto simp: fun_eq_iff bond_of_def)
        have ip: "is_Proton ?w' = is_Proton w"
          using self qp ne by (auto simp: fun_eq_iff is_Proton_def)
        have ic: "is_ConjugateBase ?w' = is_ConjugateBase w"
          using self qp ne by (auto simp: fun_eq_iff is_ConjugateBase_def)
        have "bonds_valid ?w'"
          unfolding bonds_valid_def bo ip using v[unfolded bonds_valid_def]
          by (auto split: if_splits)
        with r ic show ?thesis by blast
      qed
    qed
  qed
qed

lemma update_particles_loop_returns:
  assumes "particles bk ''Proton'' = None" "\<forall>s \<in> set js. is_ConjugateBase w s" "bonds_valid w"
  shows "\<exists>w'. update_particles_loop H bk js w = Inr w'"
  using assms(2,3)
proof (induction js arbitrary: w)
  case Nil
  show ?case by simp
next
  case (Cons j js)
  from Cons.prems(1) obtain obj pr where
    obj: "heap w j = Some obj" "own_fields obj = ConjugateBase_fields pr"
    by (auto simp: is_ConjugateBase_def split: option.splits instance_fields.splits)
  let ?w1 = "w\<lparr>heap := (heap w)(j \<mapsto> obj\<lparr>sprite :=
                     sprite_boundary_update H (sprite obj)
                       (solution_x (solution bk)) (solution_y (solution bk))
                       (solution_max_x (solution bk)) (solution_max_y (solution bk))\<rparr>)\<rparr>"
  have fr: "bond_of ?w1 = bond_of w" "is_Proton ?w1 = is_Proton w"
    "is_ConjugateBase ?w1 = is_ConjugateBase w"
    by (rule sprite_change_frame[OF _ obj(1)], simp)+
  have v1: "bonds_valid ?w1" using Cons.prems(2) fr by (auto intro: bonds_valid_frame)
  have c1: "is_ConjugateBase ?w1 j" using Cons.prems(1) fr by simp
  have res: "sprite_resolve_collisions H bk j (reacts_with obj) ?w1 = Inr ?w1"
    by (rule sprite_resolve_collisions_skip) (simp add: reacts_with_def obj(2) assms(1))
  from ConjugateBase_update_returns[OF v1 c1, of H] obtain w3 where
    w3: "ConjugateBase_update H j ?w1 = Inr w3" "bonds_valid w3"
      "is_ConjugateBase w3 = is_ConjugateBase ?w1" by blast
  have up: "update H j ?w1 = Inr w3" using w3(1) obj(2) by (simp add: update_def)
  have "\<forall>s \<in> set js. is_ConjugateBase w3 s" using Cons.prems(1) w3(3) fr by simp
  from Cons.IH[OF this w3(2)] obtain w' where "update_particles_loop H bk js w3 = Inr w'" ..
  then show ?case using obj(1) res up by (simp add: Let_def)
qed

text \<open>
  C10. In the collision resolution of a step, a key of the reaction table that has no
  group in the beaker is skipped: the result is that of the table without such keys, and
  when no key has a group the world is returned unchanged, whatever the overlap test
  and the reactions are. In particular a step of a beaker that holds only conjugate
  bases and has no group for protons returns, for every world in which those bases'
  bonds are valid.
\<close>

theorem C10_missing_group_skipped:
  "sprite_resolve_collisions H bk s table w =
     sprite_resolve_collisions H bk s (filter (\<lambda>kf. particles bk (fst kf) \<noteq> None) table) w \<and>
   ((\<forall>k \<in> fst ` set table. particles bk k = None) \<longrightarrow>
      sprite_resolve_collisions H bk s table w = Inr w) \<and>
   (particles bk ''Proton'' = None \<and>
    (\<forall>s \<in> set (all_particle_sprites bk). is_ConjugateBase w s) \<and> bonds_valid w \<longrightarrow>
      (\<exists>w'. step H bk w = Inr w'))"
  using sprite_resolve_collisions_filter[of H bk s table w]
    sprite_resolve_collisions_skip[of table bk H s w]
    update_particles_loop_returns[of bk "all_particle_sprites bk" w H]
  by (simp add: step_def update_particles_def)

theorem C10_missing_group_skipped_witness:
  "addParticles host0 (WeakConjugateBase_class ''WeakConjugateBase'') 2
     (Beaker 100 100 0 0 None None) new_world = Inr (beaker_two_bases, world_two_bases) \<and>
   particles beaker_two_bases ''Proton'' = None \<and>
   is_ConjugateBase world_two_bases 0 \<and> is_ConjugateBase world_two_bases 1 \<and>
   bonds_valid world_two_bases \<and>
   sprite_resolve_collisions host0 beaker_two_bases 0
     [(''Proton'', reacts_with_Proton)] world_two_bases = Inr world_two_bases \<and>
   (\<exists>w'. step host0 beaker_two_bases world_two_bases = Inr w')"
proof -
  have p: "particles beaker_two_bases ''Proton'' = None" by (simp add: beaker_two_bases_def)
  have c: "is_ConjugateBase world_two_bases 0" "is_ConjugateBase world_two_bases 1"
    by (simp_all add: is_ConjugateBase_def world_two_bases_def)
  have v: "bonds_valid world_two_bases"
    by (simp add: bonds_valid_def bond_of_def world_two_bases_def)
  have a: "\<forall>s \<in> set (all_particle_sprites beaker_two_bases). is_ConjugateBase world_two_bases s"
    using c by (simp add: beaker_two_bases_def)
  have t: "\<forall>k \<in> fst ` set [(''Proton'', reacts_with_Proton)]. particles beaker_two_bases k = None"
    using p by simp
  from C10_missing_group_skipped[of host0 beaker_two_bases 0 "[(''Proton'', reacts_with_Proton)]"
      world_two_bases] p a v t
  have "sprite_resolve_collisions host0 beaker_two_bases 0
     [(''Proton'', reacts_with_Proton)] world_two_bases = Inr world_two_bases"
    and "\<exists>w'. step host0 beaker_two_bases world_two_bases = Inr w'" by blast+
  with two_bases_added p c v show ?thesis by simp
qed

section \<open>The worlds a beaker reaches\<close>

text \<open>
  A new world has a sound allocator and symmetric, valid bonds, and \<open>addParticles\<close>, the
  reaction handler, \<open>update\<close> and \<open>step\<close> keep all three (\<open>removeParticles\<close> does not
  touch the world). So the hypotheses of C4 and C10 hold in every world that the
  operations of the beaker produce from a new one.
\<close>

lemma heap_fresh_same_dom:
  assumes "heap_fresh w" "next_ref w' = next_ref w" "dom (heap w') = dom (heap w)"
  shows "heap_fresh w'"
  using assms unfolding heap_fresh_def by (metis domIff)

lemma reacts_with_Proton_dom:
  assumes "reacts_with_Proton H b p w = Inr w'"
  shows "next_ref w' = next_ref w \<and> dom (heap w') = dom (heap w)"
  using assms
  by (auto simp: reacts_with_Proton_def Date_now_def Math_random_def Let_def
      split: option.splits instance_fields.splits if_splits)

lemma ConjugateBase_update_dom:
  assumes "ConjugateBase_update H b w = Inr w'"
  shows "next_ref w' = next_ref w \<and> dom (heap w') = dom (heap w)"
  using assms
  by (auto simp: ConjugateBase_update_def Date_now_def Let_def
      split: option.splits instance_fields.splits if_splits)

lemma update_dom:
  assumes "update H b w = Inr w'"
  shows "next_ref w' = next_ref w \<and> dom (heap w') = dom (heap w)"
  using assms ConjugateBase_update_dom[of H b w w']
  by (auto simp: update_def split: option.splits instance_fields.splits)

lemma reacts_with_Proton_bonds_valid:
  assumes v: "bonds_valid w" and r: "reacts_with_Proton H b p w = Inr w'"
  shows "bonds_valid w'"
proof (cases "w' = w")
  case True
  with v show ?thesis by simp
next
  case False
  with r obtain pp bp pr where
    pp: "heap w p = Some pp" "own_fields pp = Proton_fields None" and
    bp: "heap w b = Some bp" "own_fields bp = ConjugateBase_fields pr" "particle pr = None"
    by (auto simp: reacts_with_Proton_def split: option.splits instance_fields.splits if_splits)
  from pp bp have ne: "b \<noteq> p" by auto
  let ?pr = "pr\<lparr>release_after := Some (clock H (clock_reads w) + fst (release_after_range pr)
                   + snd (release_after_range pr) * random_source H (random_draws w)),
              particle := Some p,
              restore_depth := depth (sprite pp)\<rparr>"
  from reacts_with_Proton_bond[OF pp bp, of H] r
  have w': "heap w' = (heap w)(b \<mapsto> bp\<lparr>own_fields := ConjugateBase_fields ?pr\<rparr>,
            p \<mapsto> pp\<lparr>own_fields := Proton_fields (Some b),
                     sprite := (sprite pp)\<lparr>depth := Some (to_number (depth (sprite bp)) + 1/2)\<rparr>\<rparr>)"
    by auto
  have bo: "bond_of w' = (bond_of w)(b \<mapsto> ?pr)"
    using ne pp bp by (auto simp: fun_eq_iff bond_of_def w')
  have ip: "is_Proton w' = is_Proton w"
    using ne pp bp by (auto simp: fun_eq_iff is_Proton_def w')
  have "is_Proton w p" using pp by (simp add: is_Proton_def)
  then show ?thesis
    unfolding bonds_valid_def bo ip using v[unfolded bonds_valid_def]
    by (auto split: if_splits)
qed

lemma update_bonds_valid:
  assumes v: "bonds_valid w" and u: "update H b w = Inr w'"
  shows "bonds_valid w'"
proof (cases "is_ConjugateBase w b")
  case True
  with u have "ConjugateBase_update H b w = Inr w'"
    by (auto simp: update_def is_ConjugateBase_def split: option.splits instance_fields.splits)
  with ConjugateBase_update_returns[OF v True, of H] show ?thesis by auto
next
  case False
  with u have "w' = w"
    by (auto simp: update_def is_ConjugateBase_def split: option.splits instance_fields.splits)
  with v show ?thesis by simp
qed

lemma world_inv_frame:
  assumes "world_inv v" "heap v j = Some obj"
  shows "world_inv (v\<lparr>heap := (heap v)(j \<mapsto> obj\<lparr>sprite := s\<rparr>)\<rparr>)"
proof -
  let ?v = "v\<lparr>heap := (heap v)(j \<mapsto> obj\<lparr>sprite := s\<rparr>)\<rparr>"
  have "dom (heap ?v) = dom (heap v)" using assms(2) by auto
  then have "heap_fresh ?v" using assms(1) heap_fresh_same_dom[of v ?v]
    by (simp add: world_inv_def)
  moreover have "bond_symmetric ?v"
    using assms set_sprite_frame(1,2)[of v j obj s] by (simp add: bond_symmetric_def world_inv_def)
  moreover have "bonds_valid ?v"
    using assms set_sprite_frame(3,4)[of v j obj s] bonds_valid_frame[of v ?v]
    by (simp add: world_inv_def)
  ultimately show ?thesis by (simp add: world_inv_def)
qed

lemma reacts_with_Proton_world_inv:
  assumes "world_inv w" "reacts_with_Proton H b p w = Inr w'"
  shows "world_inv w'"
  using assms reacts_with_Proton_symmetric[of w H b p w'] reacts_with_Proton_bonds_valid[of w H b p w']
    reacts_with_Proton_dom[of H b p w w'] heap_fresh_same_dom[of w w']
  by (simp add: world_inv_def)

lemma update_world_inv:
  assumes "world_inv w" "update H b w = Inr w'"
  shows "world_inv w'"
  using assms update_symmetric[of w H b w'] update_bonds_valid[of w H b w']
    update_dom[of H b w w'] heap_fresh_same_dom[of w w']
  by (simp add: world_inv_def)

lemma step_world_inv:
  assumes "world_inv w" "step H bk w = Inr w'"
  shows "world_inv w'"
proof -
  from assms(2) have l: "update_particles_loop H bk (all_particle_sprites bk) w = Inr w'"
    by (simp add: step_def update_particles_def)
  show ?thesis
  proof (rule update_particles_loop_invariant[where P = world_inv, OF _ _ _ assms(1) l])
    fix v j obj s assume "world_inv v" "heap v j = Some obj"
    then show "world_inv (v\<lparr>heap := (heap v)(j \<mapsto> obj\<lparr>sprite := s\<rparr>)\<rparr>)"
      by (rule world_inv_frame)
  next
    fix a c v v' assume "world_inv v" "reacts_with_Proton H a c v = Inr v'"
    then show "world_inv v'" by (rule reacts_with_Proton_world_inv)
  next
    fix b v v' assume "world_inv v" "update H b v = Inr v'"
    then show "world_inv v'" by (rule update_world_inv)
  qed
qed

lemma world_inv_new_world: "world_inv new_world"
  by (simp add: world_inv_def heap_fresh_def bond_symmetric_def bonds_valid_def new_world_def
      proton_of_def base_of_def bond_of_def)

lemma randomPoint_heap: "heap (snd (randomPoint H bk r w)) = heap w"
  by (simp add: randomPoint_def Math_random_def Let_def)

lemma createSprite_heap: "heap (snd (createSprite H cls x y w)) = heap w"
  by (simp add: createSprite_def randomVelocity_def Math_random_def Let_def)

lemma ConjugateBase_new_result:
  "heap (snd (ConjugateBase_new H cls x y w)) = heap w \<and>
   particle (snd (fst (ConjugateBase_new H cls x y w))) = None \<and>
   release_after (snd (fst (ConjugateBase_new H cls x y w))) = None"
  by (simp add: ConjugateBase_new_def Particle_new_def createSprite_heap split_beta Let_def)

lemma new_particle_heap:
  "\<exists>obj. heap (snd (new_particle H cls x y w)) = (heap w)(next_ref w \<mapsto> obj) \<and>
     (own_fields obj = Particle_fields \<or> own_fields obj = Proton_fields None \<or>
      (\<exists>pr. own_fields obj = ConjugateBase_fields pr \<and> particle pr = None \<and>
            release_after pr = None))"
proof -
  let ?obj = "the (heap (snd (new_particle H cls x y w)) (next_ref w))"
  have "heap (snd (new_particle H cls x y w)) = (heap w)(next_ref w \<mapsto> ?obj) \<and>
     (own_fields ?obj = Particle_fields \<or> own_fields ?obj = Proton_fields None \<or>
      (\<exists>pr. own_fields ?obj = ConjugateBase_fields pr \<and> particle pr = None \<and>
            release_after pr = None))"
    by (cases "ctor cls")
       (simp_all add: new_particle_def Particle_new_def Proton_new_def WeakConjugateBase_new_def
          StrongConjugateBase_new_def createSprite_heap createSprite_next_ref
          ConjugateBase_new_result ConjugateBase_new_next_ref split_beta Let_def)
  then show ?thesis by blast
qed

lemma new_particle_world_inv:
  assumes "world_inv w"
  shows "world_inv (snd (new_particle H cls x y w))"
proof -
  let ?w = "snd (new_particle H cls x y w)"
  let ?r = "next_ref w"
  from new_particle_heap[of H cls x y w] obtain obj where
    h: "heap ?w = (heap w)(?r \<mapsto> obj)" and
    o: "own_fields obj = Particle_fields \<or> own_fields obj = Proton_fields None \<or>
      (\<exists>pr. own_fields obj = ConjugateBase_fields pr \<and> particle pr = None \<and>
            release_after pr = None)" by blast
  from assms have fresh: "heap w ?r = None" by (simp add: world_inv_def heap_fresh_def)
  have n: "next_ref ?w = Suc ?r" using new_particle_ref[of H cls x y w] by simp
  have hf: "heap_fresh ?w"
    using assms n h by (simp add: world_inv_def heap_fresh_def)
  have po: "proton_of ?w = proton_of w"
    using o fresh by (auto simp: fun_eq_iff proton_of_def h)
  have bo: "base_of ?w = base_of w"
    using o fresh by (auto simp: fun_eq_iff base_of_def h)
  have sym: "bond_symmetric ?w" using assms po bo by (simp add: world_inv_def bond_symmetric_def)
  have ip: "is_Proton w q \<Longrightarrow> is_Proton ?w q" for q
    using fresh by (auto simp: is_Proton_def h)
  have bd: "bond_of ?w c = Some pr \<Longrightarrow> release_after pr = Some ra \<Longrightarrow> bond_of w c = Some pr"
    for c pr ra
    using o fresh by (auto simp: bond_of_def h split: if_splits)
  have "bonds_valid ?w"
    unfolding bonds_valid_def using assms[unfolded world_inv_def bonds_valid_def] ip bd
    by blast
  with hf sym show ?thesis by (simp add: world_inv_def)
qed

lemma addParticles_loop_world_inv:
  assumes "addParticles_loop H cls k n bk w = Inr (bk', w')" "world_inv w"
  shows "world_inv w'"
  using assms
proof (induction n arbitrary: bk w)
  case 0
  then show ?case by simp
next
  case (Suc n)
  obtain loc w1 where rp: "randomPoint H bk (collider_radius cls) w = (loc, w1)"
    by (cases "randomPoint H bk (collider_radius cls) w")
  have "heap w1 = heap w" "next_ref w1 = next_ref w"
    using rp randomPoint_heap[of H bk "collider_radius cls" w]
      randomPoint_next_ref[of H bk "collider_radius cls" w] by simp_all
  then have inv1: "world_inv w1"
    using Suc.prems(2)
    by (simp add: world_inv_def heap_fresh_def bond_symmetric_def bonds_valid_def proton_of_def
        base_of_def bond_of_def is_Proton_def)
  show ?case
  proof (cases loc)
    case None
    with Suc.prems(1) rp have "addParticles_loop H cls k n bk w1 = Inr (bk', w')" by simp
    from Suc.IH[OF this inv1] show ?thesis .
  next
    case (Some xy)
    obtain lx ly where xy: "xy = (lx, ly)" by (cases xy)
    obtain r w2 where np: "new_particle H cls lx ly w1 = (r, w2)"
      by (cases "new_particle H cls lx ly w1")
    have inv2: "world_inv w2" using new_particle_world_inv[OF inv1, of H cls lx ly] np by simp
    from Suc.prems(1) rp Some xy np obtain bk1 where
      "addParticles_loop H cls k n bk1 w2 = Inr (bk', w')"
      by (auto split: sum.splits)
    from Suc.IH[OF this inv2] show ?thesis .
  qed
qed

lemma addParticles_world_inv:
  assumes "addParticles H cls quantity bk w = Inr (bk', w')" "world_inv w"
  shows "world_inv w'"
  using assms addParticles_loop_world_inv by (simp add: addParticles_def Let_def)

text \<open>
  The timers are valid in a new world, and \<open>addParticles\<close>, \<open>update\<close> and, under a clock
  after the epoch and draws from \<open>[0,1)\<close>, the reaction handler and \<open>step\<close> keep them
  valid. So the hypotheses of C3 hold in every world that the operations of the beaker
  produce from a new one under such a host.
\<close>

lemma timers_valid_new_world: "timers_valid new_world"
  by (simp add: timers_valid_def new_world_def bond_of_def)

lemma timers_valid_frame:
  assumes "timers_valid v" "heap v j = Some obj"
  shows "timers_valid (v\<lparr>heap := (heap v)(j \<mapsto> obj\<lparr>sprite := s\<rparr>)\<rparr>)"
  using assms set_sprite_frame(3)[of v j obj s] by (simp add: timers_valid_def)

lemma reacts_with_Proton_timers_valid:
  assumes v: "timers_valid w" and r: "reacts_with_Proton H b p w = Inr w'"
    and c: "wall_clock H" and d: "unit_draws H"
  shows "timers_valid w'"
proof (cases "w' = w")
  case True
  with v show ?thesis by simp
next
  case False
  with r obtain pp bp pr where
    pp: "heap w p = Some pp" "own_fields pp = Proton_fields None" and
    bp: "heap w b = Some bp" "own_fields bp = ConjugateBase_fields pr" "particle pr = None"
    by (auto simp: reacts_with_Proton_def split: option.splits instance_fields.splits if_splits)
  from pp bp have ne: "b \<noteq> p" by auto
  let ?ra = "clock H (clock_reads w) + fst (release_after_range pr)
                   + snd (release_after_range pr) * random_source H (random_draws w)"
  let ?pr = "pr\<lparr>release_after := Some ?ra, particle := Some p,
              restore_depth := depth (sprite pp)\<rparr>"
  from reacts_with_Proton_bond[OF pp bp, of H] r
  have w': "heap w' = (heap w)(b \<mapsto> bp\<lparr>own_fields := ConjugateBase_fields ?pr\<rparr>,
            p \<mapsto> pp\<lparr>own_fields := Proton_fields (Some b),
                     sprite := (sprite pp)\<lparr>depth := Some (to_number (depth (sprite bp)) + 1/2)\<rparr>\<rparr>)"
    by auto
  have bo: "bond_of w' = (bond_of w)(b \<mapsto> ?pr)"
    using ne pp bp by (auto simp: fun_eq_iff bond_of_def w')
  have old: "bond_of w b = Some pr" using bp by (simp add: bond_of_def)
  with v have t: "0 \<le> fst (release_after_range pr)" "0 \<le> snd (release_after_range pr)"
    by (auto simp: timers_valid_def)
  have "0 < ?ra"
    using release_after_pos[OF _ t] c d by (simp add: wall_clock_def unit_draws_def)
  then show ?thesis
    unfolding timers_valid_def bo using v[unfolded timers_valid_def] old
    by (auto split: if_splits)
qed


lemma ConjugateBase_update_bond_of:
  assumes "ConjugateBase_update H b w = Inr w'"
  shows "bond_of w' = bond_of w \<or>
    (\<exists>pr. bond_of w b = Some pr \<and>
       bond_of w' = (bond_of w)(b \<mapsto> pr\<lparr>restore_depth := None, release_after := None,
                                          particle := None\<rparr>))"
proof -
  from assms obtain self pr where
    self: "heap w b = Some self" "own_fields self = ConjugateBase_fields pr"
    by (auto simp: ConjugateBase_update_def split: option.splits instance_fields.splits)
  show ?thesis
  proof (cases "release_after pr")
    case None
    with assms self show ?thesis by (simp add: ConjugateBase_update_def)
  next
    case (Some ra)
    let ?now = "clock H (clock_reads w)"
    consider "ra = 0" | "ra \<noteq> 0" "?now < ra"
      | "ra \<noteq> 0" "\<not> ?now < ra" "?now < ra + post_release_duration pr"
      | "ra \<noteq> 0" "\<not> ?now < ra" "\<not> ?now < ra + post_release_duration pr" by blast
    then show ?thesis
    proof cases
      case 1
      with assms self Some show ?thesis by (simp add: ConjugateBase_update_def)
    next
      case 2
      with assms self Some obtain q qp where q: "particle pr = Some q" "heap w q = Some qp"
        by (auto simp: ConjugateBase_update_def Date_now_def split: option.splits)
      from ConjugateBase_update_bonded[OF self Some 2(1) q 2(2)] assms
      have w': "heap w' = (heap w)(q \<mapsto> qp\<lparr>sprite := (sprite qp)
            \<lparr>position_x := position_x (sprite self) + offset_x pr,
             position_y := position_y (sprite self) + offset_y pr\<rparr>\<rparr>)" by auto
      have "bond_of w' = bond_of w"
        using q by (auto simp: fun_eq_iff bond_of_def w')
      then show ?thesis by simp
    next
      case 3
      with assms self Some have "heap w' = heap w"
        by (auto simp: ConjugateBase_update_def Date_now_def)
      then have "bond_of w' = bond_of w"
        by (auto simp: fun_eq_iff bond_of_def)
      then show ?thesis by simp
    next
      case 4
      with assms self Some obtain q qp qb where
        q: "particle pr = Some q" "heap w q = Some qp" "own_fields qp = Proton_fields qb"
        and w': "heap w' = (heap w)
            (q \<mapsto> qp\<lparr>sprite := (sprite qp)\<lparr>depth := restore_depth pr\<rparr>,
                     own_fields := Proton_fields None\<rparr>,
             b \<mapsto> self\<lparr>own_fields := ConjugateBase_fields
                     (pr\<lparr>restore_depth := None, release_after := None, particle := None\<rparr>)\<rparr>)"
        by (auto simp: ConjugateBase_update_def Date_now_def
            split: option.splits instance_fields.splits)
      from q self have ne: "q \<noteq> b" by auto
      have "bond_of w' = (bond_of w)(b \<mapsto> pr\<lparr>restore_depth := None, release_after := None,
                                          particle := None\<rparr>)"
        using q self ne by (auto simp: fun_eq_iff bond_of_def w')
      moreover have "bond_of w b = Some pr" using self by (simp add: bond_of_def)
      ultimately show ?thesis by blast
    qed
  qed
qed
lemma update_timers_valid:
  assumes v: "timers_valid w" and u: "update H b w = Inr w'"
  shows "timers_valid w'"
proof (cases "is_ConjugateBase w b")
  case True
  with u have "ConjugateBase_update H b w = Inr w'"
    by (auto simp: update_def is_ConjugateBase_def split: option.splits instance_fields.splits)
  from ConjugateBase_update_bond_of[OF this] show ?thesis
  proof
    assume "bond_of w' = bond_of w"
    with v show ?thesis by (simp add: timers_valid_def)
  next
    assume "\<exists>pr. bond_of w b = Some pr \<and>
       bond_of w' = (bond_of w)(b \<mapsto> pr\<lparr>restore_depth := None, release_after := None,
                                          particle := None\<rparr>)"
    then obtain pr where pr: "bond_of w b = Some pr"
      "bond_of w' = (bond_of w)(b \<mapsto> pr\<lparr>restore_depth := None, release_after := None,
                                          particle := None\<rparr>)" by blast
    show ?thesis unfolding timers_valid_def pr(2) using v[unfolded timers_valid_def] pr(1)
      by (auto split: if_splits)
  qed
next
  case False
  with u have "w' = w"
    by (auto simp: update_def is_ConjugateBase_def split: option.splits instance_fields.splits)
  with v show ?thesis by simp
qed

lemma step_timers_valid:
  assumes "timers_valid w" "step H bk w = Inr w'" and c: "wall_clock H" and d: "unit_draws H"
  shows "timers_valid w'"
proof -
  from assms(2) have l: "update_particles_loop H bk (all_particle_sprites bk) w = Inr w'"
    by (simp add: step_def update_particles_def)
  show ?thesis
  proof (rule update_particles_loop_invariant[where P = timers_valid, OF _ _ _ assms(1) l])
    fix v j obj s assume "timers_valid v" "heap v j = Some obj"
    then show "timers_valid (v\<lparr>heap := (heap v)(j \<mapsto> obj\<lparr>sprite := s\<rparr>)\<rparr>)"
      by (rule timers_valid_frame)
  next
    fix a e v v' assume "timers_valid v" "reacts_with_Proton H a e v = Inr v'"
    then show "timers_valid v'" using c d by (rule reacts_with_Proton_timers_valid)
  next
    fix b v v' assume "timers_valid v" "update H b v = Inr v'"
    then show "timers_valid v'" by (rule update_timers_valid)
  qed
qed

lemma ConjugateBase_new_timers:
  "offset_x (snd (fst (ConjugateBase_new H cls x y w))) = 10 \<and>
   offset_y (snd (fst (ConjugateBase_new H cls x y w))) = - 10 \<and>
   release_after_range (snd (fst (ConjugateBase_new H cls x y w))) = (0, 5000) \<and>
   post_release_duration (snd (fst (ConjugateBase_new H cls x y w))) = 750"
  by (simp add: ConjugateBase_new_def split_beta Let_def)

lemma new_particle_timers:
  "\<exists>obj. heap (snd (new_particle H cls x y w)) = (heap w)(next_ref w \<mapsto> obj) \<and>
     (\<forall>pr. own_fields obj = ConjugateBase_fields pr \<longrightarrow>
        offset_x pr = 10 \<and> offset_y pr = - 10 \<and>
        0 \<le> fst (release_after_range pr) \<and> 0 \<le> snd (release_after_range pr) \<and>
        post_release_duration pr = 750 \<and> release_after pr = None)"
proof -
  let ?obj = "the (heap (snd (new_particle H cls x y w)) (next_ref w))"
  have "heap (snd (new_particle H cls x y w)) = (heap w)(next_ref w \<mapsto> ?obj) \<and>
     (\<forall>pr. own_fields ?obj = ConjugateBase_fields pr \<longrightarrow>
        offset_x pr = 10 \<and> offset_y pr = - 10 \<and>
        0 \<le> fst (release_after_range pr) \<and> 0 \<le> snd (release_after_range pr) \<and>
        post_release_duration pr = 750 \<and> release_after pr = None)"
    by (cases "ctor cls")
       (simp_all add: new_particle_def Particle_new_def Proton_new_def WeakConjugateBase_new_def
          StrongConjugateBase_new_def createSprite_heap createSprite_next_ref
          ConjugateBase_new_result ConjugateBase_new_timers ConjugateBase_new_next_ref
          split_beta Let_def)
  then show ?thesis by blast
qed

lemma new_particle_timers_valid:
  assumes "timers_valid w"
  shows "timers_valid (snd (new_particle H cls x y w))"
proof -
  let ?w = "snd (new_particle H cls x y w)"
  from new_particle_timers[of H cls x y w] obtain obj where
    h: "heap ?w = (heap w)(next_ref w \<mapsto> obj)" and
    o: "\<forall>pr. own_fields obj = ConjugateBase_fields pr \<longrightarrow>
        offset_x pr = 10 \<and> offset_y pr = - 10 \<and>
        0 \<le> fst (release_after_range pr) \<and> 0 \<le> snd (release_after_range pr) \<and>
        post_release_duration pr = 750 \<and> release_after pr = None" by blast
  show ?thesis
    unfolding timers_valid_def
  proof (intro allI impI)
    fix b pr assume b: "bond_of ?w b = Some pr"
    show "offset_x pr = 10 \<and> offset_y pr = - 10 \<and>
       0 \<le> fst (release_after_range pr) \<and> 0 \<le> snd (release_after_range pr) \<and>
       post_release_duration pr = 750 \<and> (\<forall>ra. release_after pr = Some ra \<longrightarrow> 0 < ra)"
    proof (cases "b = next_ref w")
      case True
      with b h have "own_fields obj = ConjugateBase_fields pr"
        by (auto simp: bond_of_def split: instance_fields.splits)
      with o show ?thesis by simp
    next
      case False
      with b h have "bond_of w b = Some pr" by (simp add: bond_of_def)
      with assms show ?thesis unfolding timers_valid_def by blast
    qed
  qed
qed

lemma addParticles_loop_timers_valid:
  assumes "addParticles_loop H cls k n bk w = Inr (bk', w')" "timers_valid w"
  shows "timers_valid w'"
  using assms
proof (induction n arbitrary: bk w)
  case 0
  then show ?case by simp
next
  case (Suc n)
  obtain loc w1 where rp: "randomPoint H bk (collider_radius cls) w = (loc, w1)"
    by (cases "randomPoint H bk (collider_radius cls) w")
  have "heap w1 = heap w"
    using rp randomPoint_heap[of H bk "collider_radius cls" w] by simp
  then have inv1: "timers_valid w1"
    using Suc.prems(2) by (simp add: timers_valid_def bond_of_def)
  show ?case
  proof (cases loc)
    case None
    with Suc.prems(1) rp have "addParticles_loop H cls k n bk w1 = Inr (bk', w')" by simp
    from Suc.IH[OF this inv1] show ?thesis .
  next
    case (Some xy)
    obtain lx ly where xy: "xy = (lx, ly)" by (cases xy)
    obtain r w2 where np: "new_particle H cls lx ly w1 = (r, w2)"
      by (cases "new_particle H cls lx ly w1")
    have inv2: "timers_valid w2"
      using new_particle_timers_valid[OF inv1, of H cls lx ly] np by simp
    from Suc.prems(1) rp Some xy np obtain bk1 where
      "addParticles_loop H cls k n bk1 w2 = Inr (bk', w')"
      by (auto split: sum.splits)
    from Suc.IH[OF this inv2] show ?thesis .
  qed
qed

lemma addParticles_timers_valid:
  assumes "addParticles H cls quantity bk w = Inr (bk', w')" "timers_valid w"
  shows "timers_valid w'"
  using assms addParticles_loop_timers_valid by (simp add: addParticles_def Let_def)

end
